theory Spec2Isabelle
  imports Main "HOL-Library.AList"
begin

section \<open>JavaScript strings and values\<close>

text \<open>
  The generators are two Node.js scripts, both held by
  \<^verbatim>\<open>src/tools/generate_single_header.js\<close>: the header generator (lines 1 to 329) and
  the JSON documentation generator (from line 330 on).  A JavaScript string is modelled as a
  \<^typ>\<open>string\<close>, one \<^typ>\<open>char\<close> per code unit; the annotation sources are ASCII, and code
  units from 256 on are outside the model.
  The string methods below follow ECMAScript: indices are \<^typ>\<open>int\<close> because
  \<^verbatim>\<open>indexOf\<close> answers \<^verbatim>\<open>-1\<close> and \<^verbatim>\<open>substring\<close> accepts it.
\<close>

definition NL :: string where
  "NL = [CHR 0x0A]"

text \<open>\<^verbatim>\<open>s.startsWith(p)\<close>\<close>

fun js_startsWith :: "string \<Rightarrow> string \<Rightarrow> bool" where
  "js_startsWith s [] = True"
| "js_startsWith [] (p # ps) = False"
| "js_startsWith (c # cs) (p # ps) = (c = p \<and> js_startsWith cs ps)"

text \<open>\<^verbatim>\<open>s.endsWith(p)\<close>\<close>

definition js_endsWith :: "string \<Rightarrow> string \<Rightarrow> bool" where
  "js_endsWith s p = js_startsWith (rev s) (rev p)"

text \<open>The first index at which \<open>pat\<close> occurs in \<open>s\<close>, if any.\<close>

fun js_find :: "string \<Rightarrow> string \<Rightarrow> nat option" where
  "js_find pat [] = (if pat = [] then Some 0 else None)"
| "js_find pat (c # cs) =
     (if js_startsWith (c # cs) pat then Some 0 else map_option Suc (js_find pat cs))"

text \<open>
  \<^verbatim>\<open>s.indexOf(pat, pos)\<close>: the position is clamped into \<open>0..length s\<close>, the answer is
  the first index of an occurrence from there on, \<open>-1\<close> when there is none.
\<close>

definition js_indexOf :: "string \<Rightarrow> string \<Rightarrow> int \<Rightarrow> int" where
  "js_indexOf s pat pos =
     (let k = nat (min (max pos 0) (int (length s)))
      in case js_find pat (drop k s) of None \<Rightarrow> - 1 | Some i \<Rightarrow> int (k + i))"

text \<open>
  \<^verbatim>\<open>s.substring(a, b)\<close>: both indices are clamped into \<open>0..length s\<close> and swapped
  when the first is the larger one.
\<close>

definition js_substring :: "string \<Rightarrow> int \<Rightarrow> int \<Rightarrow> string" where
  "js_substring s a b =
     (let n = int (length s);
          a' = min (max a 0) n;
          b' = min (max b 0) n;
          lo = min a' b';
          hi = max a' b'
      in take (nat (hi - lo)) (drop (nat lo) s))"

text \<open>
  \<^verbatim>\<open>s.replace(pat, rep)\<close> for a string pattern: only the first occurrence is replaced.
  The scripts call it with the empty replacement, so the \<^verbatim>\<open>$\<close> patterns of a
  replacement string never matter.
\<close>

definition js_replace :: "string \<Rightarrow> string \<Rightarrow> string \<Rightarrow> string" where
  "js_replace s pat rep =
     (case js_find pat s of
        None \<Rightarrow> s
      | Some i \<Rightarrow> take i s @ rep @ drop (i + length pat) s)"

text \<open>
  \<^verbatim>\<open>s.split(sep)\<close> for a string separator: the text is cut at every occurrence of
  \<open>sep\<close>, found from left to right without overlap; the empty separator cuts between all
  code units.
\<close>

function js_split :: "string \<Rightarrow> string \<Rightarrow> string list" where
  "js_split [] sep = (if sep = [] then [] else [[]])"
| "js_split (c # cs) sep =
     (if sep = [] then map (\<lambda>x. [x]) (c # cs)
      else if js_startsWith (c # cs) sep then [] # js_split (drop (length sep) (c # cs)) sep
      else (case js_split cs sep of
              [] \<Rightarrow> [[c]]
            | p # ps \<Rightarrow> (c # p) # ps))"
  by pat_completeness auto
termination
  by (relation "measure (\<lambda>(s, sep). length s)") auto

text \<open>\<^verbatim>\<open>xs.join(sep)\<close> on an array of strings.\<close>

fun js_join :: "string list \<Rightarrow> string \<Rightarrow> string" where
  "js_join [] sep = []"
| "js_join [x] sep = x"
| "js_join (x # y # ys) sep = x @ sep @ js_join (y # ys) sep"

text \<open>
  \<^verbatim>\<open>s.trim()\<close> removes white space and line terminators at both ends; below code
  unit 256 these are TAB, LF, VT, FF, CR, SPACE and NBSP.
\<close>

definition js_isWhiteSpace :: "char \<Rightarrow> bool" where
  "js_isWhiteSpace c =
     (c \<in> set [CHR 0x09, CHR 0x0A, CHR 0x0B, CHR 0x0C, CHR 0x0D, CHR 0x20, CHR 0xA0])"

definition js_trim :: "string \<Rightarrow> string" where
  "js_trim s = rev (dropWhile js_isWhiteSpace (rev (dropWhile js_isWhiteSpace s)))"

text \<open>
  A property read \<^verbatim>\<open>table[key]\<close> on an object literal whose own values are strings
  answers the own value, or else what the literal inherits from \<^verbatim>\<open>Object.prototype\<close>
  (a function, or the prototype itself under \<^verbatim>\<open>__proto__\<close>), or else
  \<^verbatim>\<open>undefined\<close>.  A value is therefore a string or one of these inherited objects,
  named by its property.
\<close>

datatype jsval = JString string | JInherited string

definition Object_prototype_names :: "string list" where
  "Object_prototype_names =
     [''constructor'', ''__defineGetter__'', ''__defineSetter__'', ''hasOwnProperty'',
      ''__lookupGetter__'', ''__lookupSetter__'', ''isPrototypeOf'', ''propertyIsEnumerable'',
      ''toString'', ''valueOf'', ''__proto__'', ''toLocaleString'']"

text \<open>
  String conversion, as a template literal and a property key apply it.  Node prints a
  built-in function as \<^verbatim>\<open>function name() { [native code] }\<close>; the
  \<^verbatim>\<open>constructor\<close> is the function \<^verbatim>\<open>Object\<close>.
\<close>

fun js_toString :: "jsval \<Rightarrow> string" where
  "js_toString (JString s) = s"
| "js_toString (JInherited n) =
     (if n = ''__proto__'' then ''[object Object]''
      else if n = ''constructor'' then ''function Object() { [native code] }''
      else ''function '' @ n @ ''() { [native code] }'')"

fun js_truthy :: "jsval \<Rightarrow> bool" where
  "js_truthy (JString s) = (s \<noteq> [])"
| "js_truthy (JInherited n) = True"

text \<open>\<^verbatim>\<open>table[key]\<close>; \<open>None\<close> is \<^verbatim>\<open>undefined\<close>.\<close>

definition js_get :: "(string \<times> string) list \<Rightarrow> jsval \<Rightarrow> jsval option" where
  "js_get table key =
     (let k = js_toString key
      in case map_of table k of
           Some v \<Rightarrow> Some (JString v)
         | None \<Rightarrow> if k \<in> set Object_prototype_names then Some (JInherited k) else None)"

text \<open>\<^verbatim>\<open>table[key] || key\<close>\<close>

definition js_get_or :: "(string \<times> string) list \<Rightarrow> jsval \<Rightarrow> jsval" where
  "js_get_or table key =
     (case js_get table key of
        Some v \<Rightarrow> if js_truthy v then v else key
      | None \<Rightarrow> key)"

datatype js_error = TypeError

section \<open>The header generator\<close>

definition API_PREFIX :: string where
  "API_PREFIX = ''OMP_CAPI(''"

definition TYPE_MAPPINGS_function :: "(string \<times> string) list" where
  "TYPE_MAPPINGS_function =
     [(''StringCharPtr'', ''const char*''),
      (''objectPtr'', ''void*''),
      (''voidPtr'', ''void*''),
      (''OutputStringViewPtr'', ''struct CAPIStringView*''),
      (''OutputStringBufferPtr'', ''struct CAPIStringBuffer*''),
      (''ComponentVersion'', ''struct ComponentVersion'')]"

definition TYPE_MAPPINGS_event :: "(string \<times> string) list" where
  "TYPE_MAPPINGS_event = [(''CAPIStringView'', ''struct CAPIStringView'')]"

definition convertFunctionArgType :: "jsval \<Rightarrow> jsval" where
  "convertFunctionArgType ty = js_get_or TYPE_MAPPINGS_function ty"

definition convertEventArgType :: "jsval \<Rightarrow> jsval" where
  "convertEventArgType ty = js_get_or TYPE_MAPPINGS_event ty"

record parameter =
  param_name :: string
  param_type :: jsval

record api_record =
  api_ret :: jsval
  api_name :: string
  api_params :: "parameter list"

record parsed_line =
  group :: string
  api :: api_record

text \<open>\<^verbatim>\<open>parseParameter\<close>; \<open>None\<close> is \<^verbatim>\<open>undefined\<close>.\<close>

definition parseParameter :: "string \<Rightarrow> parameter option" where
  "parseParameter paramString =
     (case js_split (js_trim paramString) '' '' of
        p0 # p1 # _ \<Rightarrow>
          Some \<lparr>param_name = p1, param_type = convertFunctionArgType (JString p0)\<rparr>
      | _ \<Rightarrow> None)"

text \<open>\<^verbatim>\<open>.filter(Boolean)\<close> on the mapped array: objects are kept, \<^verbatim>\<open>undefined\<close> goes.\<close>

fun filter_Boolean :: "'a option list \<Rightarrow> 'a list" where
  "filter_Boolean [] = []"
| "filter_Boolean (None # xs) = filter_Boolean xs"
| "filter_Boolean (Some x # xs) = x # filter_Boolean xs"

text \<open>
  \<^verbatim>\<open>parseAPILine\<close>.  The array destructuring \<^verbatim>\<open>[fullName, rest]\<close> takes the first
  two pieces of the split; with one piece only, \<^verbatim>\<open>rest\<close> is \<^verbatim>\<open>undefined\<close> and
  \<^verbatim>\<open>rest.indexOf\<close> throws a \<^verbatim>\<open>TypeError\<close>.  A split by a non-empty separator
  has at least one piece (\<open>js_split_not_Nil\<close> below), so the other \<open>[]\<close> branches are
  never taken.
\<close>

definition parseAPILine :: "string \<Rightarrow> js_error + parsed_line" where
  "parseAPILine line =
     (let content = js_replace line API_PREFIX ''''
      in case js_split content '', '' of
           fullName # rest # _ \<Rightarrow>
             (case js_split fullName ''_'' of
                grp # nameParts \<Rightarrow>
                  (let name = js_join nameParts ''_'';
                       returnTypeEnd = js_indexOf rest ''('' 0;
                       returnType = js_substring rest 0 returnTypeEnd;
                       paramsStart = js_indexOf content ''('' (js_indexOf content returnType 0) + 1;
                       paramsEnd = js_indexOf content '')'' 0;
                       paramsString = js_substring content paramsStart paramsEnd;
                       parameters = filter_Boolean (map parseParameter (js_split paramsString '', ''))
                   in Inr \<lparr>group = grp,
                           api = \<lparr>api_ret = convertFunctionArgType (JString returnType),
                                  api_name = name,
                                  api_params = parameters\<rparr>\<rparr>)
              | [] \<Rightarrow> Inl TypeError)
         | _ \<Rightarrow> Inl TypeError)"

text \<open>
  \<^verbatim>\<open>processFile\<close>: the file is given by its lines, as \<^verbatim>\<open>readline\<close> delivers them;
  \<open>apis\<close> is the array the loop pushes to.  A line whose parse throws ends the run.
\<close>

fun processFile_loop :: "string list \<Rightarrow> parsed_line list \<Rightarrow> js_error + parsed_line list" where
  "processFile_loop [] apis = Inr apis"
| "processFile_loop (line # lines) apis =
     (if js_startsWith line API_PREFIX
      then (case parseAPILine line of
              Inl e \<Rightarrow> Inl e
            | Inr r \<Rightarrow> processFile_loop lines (apis @ [r]))
      else processFile_loop lines apis)"

definition processFile :: "string list \<Rightarrow> js_error + parsed_line list" where
  "processFile lines = processFile_loop lines []"

text \<open>
  The object \<^verbatim>\<open>apisByGroup\<close> is an association list of its own properties in the
  order they were created.  The body of the inner loop of \<^verbatim>\<open>collectAPIs\<close>: when
  \<^verbatim>\<open>apisByGroup[group]\<close> is falsy (no own and no inherited property) an empty array is
  stored; then \<^verbatim>\<open>apisByGroup[group].push(api)\<close> appends to the own array, and throws
  when the value read is an inherited object, which has no \<^verbatim>\<open>push\<close>.
\<close>

type_synonym grouped_apis = "(string \<times> api_record list) list"

definition push_api :: "grouped_apis \<Rightarrow> parsed_line \<Rightarrow> js_error + grouped_apis" where
  "push_api apisByGroup r =
     (let g = group r;
          obj = (if map_of apisByGroup g = None \<and> g \<notin> set Object_prototype_names
                 then AList.update g [] apisByGroup
                 else apisByGroup)
      in case map_of obj g of
           Some functions \<Rightarrow> Inr (AList.update g (functions @ [api r]) obj)
         | None \<Rightarrow> Inl TypeError)"

fun push_apis :: "parsed_line list \<Rightarrow> grouped_apis \<Rightarrow> js_error + grouped_apis" where
  "push_apis [] apisByGroup = Inr apisByGroup"
| "push_apis (r # rs) apisByGroup =
     (case push_api apisByGroup r of
        Inl e \<Rightarrow> Inl e
      | Inr obj \<Rightarrow> push_apis rs obj)"

text \<open>
  \<^verbatim>\<open>collectAPIs\<close>: the directory is the list of its files, in the order
  \<^verbatim>\<open>readdirSync\<close> lists them, each a relative path with the lines of the file.
\<close>

type_synonym source_file = "string \<times> string list"

fun collectAPIs_loop :: "source_file list \<Rightarrow> grouped_apis \<Rightarrow> js_error + grouped_apis" where
  "collectAPIs_loop [] apisByGroup = Inr apisByGroup"
| "collectAPIs_loop (file # files) apisByGroup =
     (case processFile (snd file) of
        Inl e \<Rightarrow> Inl e
      | Inr apis \<Rightarrow>
          (case push_apis apis apisByGroup of
             Inl e \<Rightarrow> Inl e
           | Inr obj \<Rightarrow> collectAPIs_loop files obj))"

definition collectAPIs :: "source_file list \<Rightarrow> js_error + grouped_apis" where
  "collectAPIs dir =
     collectAPIs_loop (filter (\<lambda>file. js_endsWith (fst file) ''APIs.cpp'') dir) []"

text \<open>
  \<^verbatim>\<open>Object.entries\<close> and \<^verbatim>\<open>Object.keys\<close> enumerate the own properties of an object:
  first the keys that are array indices (canonical decimal numerals below \<open>2^32 - 1\<close>) in
  ascending numeric order, then all other keys in the order of their creation.
\<close>

definition digits_value :: "string \<Rightarrow> nat" where
  "digits_value k = fold (\<lambda>c n. 10 * n + (of_char c - 48)) k 0"

definition is_array_index :: "string \<Rightarrow> bool" where
  "is_array_index k =
     (k \<noteq> [] \<and> list_all (\<lambda>c. c \<in> set ''0123456789'') k
      \<and> (if hd k = CHR ''0'' then k = ''0'' else True)
      \<and> digits_value k < 2 ^ 32 - 1)"

definition Object_entries :: "(string \<times> 'a) list \<Rightarrow> (string \<times> 'a) list" where
  "Object_entries obj =
     sort_key (\<lambda>e. digits_value (fst e)) (filter (\<lambda>e. is_array_index (fst e)) obj)
     @ filter (\<lambda>e. \<not> is_array_index (fst e)) obj"

text \<open>
  The output file is a string, the file's content; \<^verbatim>\<open>fs.appendFileSync(OUTPUT_FILE, data)\<close>
  answers the new content.
\<close>

definition appendFileSync :: "string \<Rightarrow> string \<Rightarrow> string" where
  "appendFileSync out data = out @ data"

text \<open>The constant \<^verbatim>\<open>params\<close> of \<^verbatim>\<open>writeFunctionTypeDefinitions\<close>.\<close>

definition typedef_params :: "parameter list \<Rightarrow> string" where
  "typedef_params ps =
     js_join (map (\<lambda>param. js_toString (param_type param) @ '' '' @ param_name param) ps) '', ''"

definition writeFunctionTypeDefinitions :: "grouped_apis \<Rightarrow> string \<Rightarrow> string" where
  "writeFunctionTypeDefinitions apis out0 =
     fold (\<lambda>(grp, functions) out.
             fold (\<lambda>func out.
                     appendFileSync out
                       (''typedef '' @ js_toString (api_ret func) @ '' (*'' @ grp @ ''_''
                        @ api_name func @ ''_t)('' @ typedef_params (api_params func) @ '');'' @ NL))
               functions
               (appendFileSync out (NL @ NL @ ''// '' @ grp @ '' function type definitions'' @ NL)))
       (Object_entries apis) out0"

text \<open>
  The event schema \<^verbatim>\<open>events.json\<close>: an object from component names to arrays of
  events, each with a name and its arguments (name and type, both strings).
\<close>

record event_arg =
  arg_name :: string
  arg_type :: string

record event =
  event_name :: string
  event_args :: "event_arg list"

text \<open>The constant \<^verbatim>\<open>args\<close> of \<^verbatim>\<open>writeEventDefinitions\<close>, before the join.\<close>

definition event_arg_lines :: "event \<Rightarrow> string list" where
  "event_arg_lines ev =
     map (\<lambda>param. ''        '' @ js_toString (convertEventArgType (JString (arg_type param)))
                   @ ''* '' @ arg_name param @ '';'')
       (event_args ev)"

definition event_definition :: "event \<Rightarrow> string" where
  "event_definition ev =
     NL @ ''struct EventArgs_'' @ event_name ev @ '' {'' @ NL
     @ ''    int size;'' @ NL
     @ ''    struct {'' @ NL
     @ js_join (event_arg_lines ev) NL @ NL
     @ ''    } *list;'' @ NL
     @ ''};'' @ NL
     @ ''typedef bool (*EventCallback_'' @ event_name ev @ '')(struct EventArgs_''
     @ event_name ev @ '' args);'' @ NL"

definition writeEventDefinitions :: "(string \<times> event list) list \<Rightarrow> string \<Rightarrow> string" where
  "writeEventDefinitions events out0 =
     appendFileSync
       (fold (\<lambda>(grp, eventList) out.
                fold (\<lambda>ev out. appendFileSync out (event_definition ev))
                  eventList
                  (appendFileSync out
                     (NL @ NL @ ''// '' @ grp @ '' event type and arguments definitions'')))
          (Object_entries events) out0)
       NL"

text \<open>
  \<^verbatim>\<open>writeInitializationFunction\<close>.  The fixed text it appends first, line by line:
\<close>

definition initializer_open_library :: "string list" where
  \<open>initializer_open_library =
     ['''',
      ''static bool omp_initialize_capi(struct OMPAPI_t* ompapi) {'',
      ''#if defined(WIN32) || defined(_WIN32) || defined(__WIN32__)'',
      ''    void* capi_lib = LIBRARY_OPEN("./components/$CAPI.dll");'',
      ''#else'',
      ''    void* capi_lib = LIBRARY_OPEN("./components/$CAPI.so");'',
      ''#endif'',
      '''',
      ''    // Check if library was loaded successfully'',
      ''    if (!capi_lib)'',
      ''    {'',
      ''        return false;'',
      ''    }'',
      '''']\<close>

definition initializer_sentinel :: "string list" where
  \<open>initializer_sentinel =
     [''    // Verify one of the core C apis is available'',
      ''    ompapi->Core.TickCount = (Core_TickCount_t)LIBRARY_GET_ADDR(capi_lib, "Core_TickCount");'',
      '''',
      ''    if (!ompapi->Core.TickCount)'',
      ''    {'',
      ''        return false;'',
      ''    }'']\<close>

text \<open>Every line of a list, each ended by a line feed.\<close>

definition js_lines :: "string list \<Rightarrow> string" where
  "js_lines ls = concat (map (\<lambda>l. l @ NL) ls)"

definition initializer_assignment :: "string \<Rightarrow> api_record \<Rightarrow> string" where
  \<open>initializer_assignment grp func =
     ''    ompapi->'' @ grp @ ''.'' @ api_name func @ '' = ('' @ grp @ ''_'' @ api_name func
     @ ''_t)LIBRARY_GET_ADDR(capi_lib, "'' @ grp @ ''_'' @ api_name func @ ''");'' @ NL\<close>

definition writeInitializationFunction :: "grouped_apis \<Rightarrow> string \<Rightarrow> string" where
  "writeInitializationFunction apis out0 =
     appendFileSync
       (fold (\<lambda>(grp, functions) out.
                fold (\<lambda>func out. appendFileSync out (initializer_assignment grp func))
                  functions
                  (appendFileSync out (NL @ ''    // Retrieve '' @ grp @ '' functions'' @ NL)))
          (Object_entries apis)
          (appendFileSync out0 (js_lines (initializer_open_library @ initializer_sentinel))))
       (NL @ ''    return true;'' @ NL @ ''};'' @ NL)"

section \<open>The JSON documentation generator\<close>

definition json_TYPE_MAPPINGS :: "(string \<times> string) list" where
  "json_TYPE_MAPPINGS =
     [(''StringCharPtr'', ''const char*''),
      (''objectPtr'', ''void*''),
      (''voidPtr'', ''void*''),
      (''OutputStringViewPtr'', ''CAPIStringView*''),
      (''OutputStringBufferPtr'', ''CAPIStringBuffer*'')]"

definition convertTypeName :: "jsval \<Rightarrow> jsval" where
  "convertTypeName ty = js_get_or json_TYPE_MAPPINGS ty"

definition json_parseParameter :: "string \<Rightarrow> parameter option" where
  "json_parseParameter paramString =
     (case js_split (js_trim paramString) '' '' of
        p0 # p1 # _ \<Rightarrow>
          Some \<lparr>param_name = p1, param_type = convertTypeName (JString p0)\<rparr>
      | _ \<Rightarrow> None)"

record component_line =
  component :: string
  component_api :: api_record

definition json_parseAPILine :: "string \<Rightarrow> js_error + component_line" where
  "json_parseAPILine line =
     (let content = js_replace line API_PREFIX ''''
      in case js_split content '', '' of
           apiName # rest # _ \<Rightarrow>
             (case js_split apiName ''_'' of
                componentName # _ \<Rightarrow>
                  (let returnTypeEnd = js_indexOf rest ''('' 0;
                       returnType = js_substring rest 0 returnTypeEnd;
                       paramsStart = js_indexOf content ''('' (js_indexOf content returnType 0) + 1;
                       paramsEnd = js_indexOf content '')'' 0;
                       paramsString = js_substring content paramsStart paramsEnd;
                       parameters =
                         filter_Boolean (map json_parseParameter (js_split paramsString '', ''))
                   in Inr \<lparr>component = componentName,
                           component_api = \<lparr>api_ret = convertTypeName (JString returnType),
                                            api_name = apiName,
                                            api_params = parameters\<rparr>\<rparr>)
              | [] \<Rightarrow> Inl TypeError)
         | _ \<Rightarrow> Inl TypeError)"

section \<open>The annotation grammar and the grouped model\<close>

text \<open>
  The input contract of both generators is the line
  \<^verbatim>\<open>PREFIX(Group_Name, ReturnType(Type0 name0, Type1 name1, ...))\<close>.  The definitions
  of this section embed no code: they are the vocabulary in which the theorems speak of
  well-formed lines and of the content of the grouped model.

  A plain text has no comma and no parenthesis; a word is a non-empty plain text without white
  space.  \<open>annotation_line\<close> writes the line of a group, a name, a return type and the
  parameter tokens between the parentheses; \<open>param_text\<close> writes a parameter token from its
  type and its name.
\<close>

definition plain :: "string \<Rightarrow> bool" where
  "plain s = (CHR '','' \<notin> set s \<and> CHR ''('' \<notin> set s \<and> CHR '')'' \<notin> set s)"

definition is_word :: "string \<Rightarrow> bool" where
  "is_word w = (w \<noteq> [] \<and> plain w \<and> list_all (\<lambda>c. \<not> js_isWhiteSpace c) w)"

definition annotation_line :: "string \<Rightarrow> string \<Rightarrow> string \<Rightarrow> string list \<Rightarrow> string" where
  "annotation_line grp name ret toks =
     API_PREFIX @ grp @ ''_'' @ name @ '', '' @ ret @ ''('' @ js_join toks '', '' @ ''))''"

definition param_text :: "string \<times> string \<Rightarrow> string" where
  "param_text p = fst p @ '' '' @ snd p"

text \<open>
  The lines that \<^verbatim>\<open>collectAPIs\<close> hands to the parser, in the order it does: the files
  whose path ends in \<^verbatim>\<open>APIs.cpp\<close> in the order of the listing, and in each file the
  lines that start with the prefix.
\<close>

definition annotation_lines :: "source_file list \<Rightarrow> string list" where
  "annotation_lines dir =
     concat (map (\<lambda>file. filter (\<lambda>line. js_startsWith line API_PREFIX) (snd file))
               (filter (\<lambda>file. js_endsWith (fst file) ''APIs.cpp'') dir))"

text \<open>The array \<^verbatim>\<open>apis[g]\<close> of the grouped model, empty when the group is absent.\<close>

definition records_of :: "grouped_apis \<Rightarrow> string \<Rightarrow> api_record list" where
  "records_of apis g = (case map_of apis g of None \<Rightarrow> [] | Some functions \<Rightarrow> functions)"

section \<open>Inputs of the scenarios\<close>

text \<open>The event schema entry of the \<^verbatim>\<open>OnPlayerConnect\<close> scenario.\<close>

definition OnPlayerConnect :: event where
  "OnPlayerConnect =
     \<lparr>event_name = ''OnPlayerConnect'',
      event_args = [\<lparr>arg_name = ''playerid'', arg_type = ''int''\<rparr>,
                    \<lparr>arg_name = ''ip'', arg_type = ''CAPIStringView''\<rparr>]\<rparr>"

text \<open>
  A directory in which two files annotate a function of the same group and name; the file in
  between does not end in \<^verbatim>\<open>APIs.cpp\<close> and is skipped.
\<close>

definition duplicate_dir :: "source_file list" where
  "duplicate_dir =
     [(''Actor/APIs.cpp'', [''#include <x>'', ''OMP_CAPI(Actor_Create, int(int a))'']),
      (''Actor/Extra.cpp'', [''OMP_CAPI(Actor_Hidden, int(int z))'']),
      (''Player/APIs.cpp'', [''OMP_CAPI(Actor_Create, bool(float b))''])]"

text \<open>
  A file whose two annotated functions have groups named by array indices, the larger one
  first.
\<close>

definition index_dir :: "source_file list" where
  "index_dir = [(''Core/APIs.cpp'', [''OMP_CAPI(9_a, int())'', ''OMP_CAPI(1_b, int())''])]"

section \<open>Basic facts about the string functions\<close>

lemma js_split_not_Nil: "sep \<noteq> [] \<Longrightarrow> js_split s sep \<noteq> []"
  by (cases s) (auto split: list.splits)

lemma js_startsWith_append: "js_startsWith (p @ s) p"
  by (induction p) auto

lemma js_startsWith_drop: "js_startsWith s p \<Longrightarrow> s = p @ drop (length p) s"
  by (induction s p rule: js_startsWith.induct) auto

lemma js_find_prefix: "js_find pat (pat @ s) = Some 0"
proof (cases "pat @ s")
  case Nil
  then show ?thesis by simp
next
  case (Cons a l)
  have "js_startsWith (a # l) pat"
    using js_startsWith_append[of pat s] Cons by simp
  then show ?thesis by (simp add: Cons)
qed

lemma js_replace_prefix: "js_replace (pat @ s) pat [] = s"
  by (simp add: js_replace_def js_find_prefix)

lemma js_find_char: "c \<notin> set t \<Longrightarrow> js_find [c] (t @ c # r) = Some (length t)"
  by (induction t) auto

lemma js_find_bound: "\<exists>i\<le>length a. js_find pat (a @ pat @ b) = Some i"
proof (induction a)
  case Nil
  then show ?case by (simp add: js_find_prefix)
next
  case (Cons x a)
  then show ?case by auto
qed

lemma js_indexOf_char:
  assumes "c \<notin> set t" "0 \<le> k" "k \<le> int (length t)"
  shows "js_indexOf (t @ c # r) [c] k = int (length t)"
proof -
  have k: "nat (min (max k 0) (int (length (t @ c # r)))) = nat k"
    using assms by simp
  have d: "drop (nat k) (t @ c # r) = drop (nat k) t @ c # r"
    using assms by simp
  have "c \<notin> set (drop (nat k) t)"
    using assms(1) by (meson in_set_dropD)
  then have "js_find [c] (drop (nat k) t @ c # r) = Some (length (drop (nat k) t))"
    by (rule js_find_char)
  then show ?thesis
    unfolding js_indexOf_def Let_def k d using assms by simp
qed

lemma js_indexOf_bound:
  "0 \<le> js_indexOf (a @ pat @ b) pat 0 \<and> js_indexOf (a @ pat @ b) pat 0 \<le> int (length a)"
proof -
  obtain i where "i \<le> length a" "js_find pat (a @ pat @ b) = Some i"
    using js_find_bound by blast
  then show ?thesis by (simp add: js_indexOf_def)
qed

lemma js_substring_prefix: "js_substring (a @ c) 0 (int (length a)) = a"
  by (simp add: js_substring_def Let_def)

lemma js_substring_mid:
  "js_substring (a @ b @ c) (int (length a)) (int (length a) + int (length b)) = b"
proof -
  have "min (int (length a)) (int (length a) + int (length b)) = int (length a)" by simp
  moreover have "max (int (length a)) (int (length a) + int (length b))
                 = int (length a) + int (length b)" by simp
  ultimately show ?thesis by (simp add: js_substring_def Let_def)
qed

lemma js_split_sep:
  "c \<notin> set t \<Longrightarrow> js_split (t @ (c # cs) @ r) (c # cs) = t # js_split r (c # cs)"
proof (induction t)
  case Nil
  have "js_startsWith ((c # cs) @ r) (c # cs)" by (rule js_startsWith_append)
  then show ?case by simp
next
  case (Cons a t)
  then show ?case by auto
qed

lemma js_split_no_sep: "c \<notin> set t \<Longrightarrow> js_split t (c # cs) = [t]"
  by (induction t) auto

lemma js_split_first_piece:
  "c \<notin> set a \<Longrightarrow> \<exists>u more. js_split (a @ b) (c # cs) = (a @ u) # more"
proof (induction a)
  case Nil
  have "js_split b (c # cs) \<noteq> []" by (rule js_split_not_Nil) simp
  then show ?case by (cases "js_split b (c # cs)") auto
next
  case (Cons x a)
  then obtain u more where "js_split (a @ b) (c # cs) = (a @ u) # more" by auto
  with Cons.prems show ?case by auto
qed

lemma js_join_Cons_Cons: "js_join ((c # p) # ps) sep = c # js_join (p # ps) sep"
  by (cases ps) auto

lemma js_join_split: "sep \<noteq> [] \<Longrightarrow> js_join (js_split s sep) sep = s"
proof (induction s sep rule: js_split.induct)
  case (1 sep)
  then show ?case by simp
next
  case (2 c cs sep)
  show ?case
  proof (cases "js_startsWith (c # cs) sep")
    case True
    have ne: "js_split (drop (length sep) (c # cs)) sep \<noteq> []"
      using 2(3) by (rule js_split_not_Nil)
    have pre: "c # cs = sep @ drop (length sep) (c # cs)"
      using True by (rule js_startsWith_drop)
    from ne obtain p ps where sp: "js_split (drop (length sep) (c # cs)) sep = p # ps"
      by (cases "js_split (drop (length sep) (c # cs)) sep") auto
    have "js_join ([] # p # ps) sep = sep @ js_join (p # ps) sep" by simp
    also have "js_join (p # ps) sep = drop (length sep) (c # cs)"
      using 2(1)[OF 2(3) True] 2(3) sp by simp
    finally show ?thesis using True 2(3) sp pre by simp
  next
    case False
    have ne: "js_split cs sep \<noteq> []" using 2(3) by (rule js_split_not_Nil)
    then obtain p ps where sp: "js_split cs sep = p # ps"
      by (cases "js_split cs sep") auto
    have "js_join (p # ps) sep = cs" using 2(2)[OF 2(3) False] 2(3) sp by simp
    then show ?thesis using False 2(3) sp by (simp add: js_join_Cons_Cons)
  qed
qed

lemma js_split_join:
  "\<forall>t\<in>set toks. c \<notin> set t \<Longrightarrow>
   js_split (js_join toks (c # cs)) (c # cs) = (if toks = [] then [[]] else toks)"
proof (induction toks "c # cs" rule: js_join.induct)
  case 1
  then show ?case by simp
next
  case (2 x)
  then show ?case by (simp add: js_split_no_sep)
next
  case (3 x y ys)
  then show ?case
    using js_split_sep[of c x cs "js_join (y # ys) (c # cs)"] by simp
qed

lemma js_split_char:
  "js_split s [c] =
     takeWhile (\<lambda>x. x \<noteq> c) s
     # (case dropWhile (\<lambda>x. x \<noteq> c) s of [] \<Rightarrow> [] | _ # r \<Rightarrow> js_split r [c])"
  by (induction s) auto

section \<open>Parsing a well-formed annotation line\<close>

lemma parseParameter_empty: "parseParameter [] = None"
  by (simp add: parseParameter_def js_trim_def)

lemma js_trim_id:
  assumes "s \<noteq> []" "\<not> js_isWhiteSpace (hd s)" "\<not> js_isWhiteSpace (last s)"
  shows "js_trim s = s"
proof -
  have "dropWhile js_isWhiteSpace s = s"
    using assms by (cases s) auto
  moreover have "dropWhile js_isWhiteSpace (rev s) = rev s"
    using assms by (cases "rev s") (auto simp: last_rev[symmetric] simp del: last_rev)
  ultimately show ?thesis by (simp add: js_trim_def)
qed

lemma is_word_no_space: "is_word w \<Longrightarrow> CHR '' '' \<notin> set w"
  by (auto simp: is_word_def list_all_iff js_isWhiteSpace_def)

lemma parseParameter_param_text:
  assumes "is_word t" "is_word n"
  shows "parseParameter (param_text (t, n))
         = Some \<lparr>param_name = n, param_type = convertFunctionArgType (JString t)\<rparr>"
proof -
  let ?s = "t @ '' '' @ n"
  have ne: "?s \<noteq> []" by simp
  have h: "\<not> js_isWhiteSpace (hd ?s)"
    using assms(1) by (cases t) (auto simp: is_word_def)
  have l: "\<not> js_isWhiteSpace (last ?s)"
    using assms(2) by (auto simp: is_word_def list_all_iff)
  have tr: "js_trim ?s = ?s" using ne h l by (rule js_trim_id)
  have "js_split ?s '' '' = t # js_split n '' ''"
    using js_split_sep[of "CHR '' ''" t "[]" n] is_word_no_space[OF assms(1)] by simp
  also have "js_split n '' '' = [n]"
    using js_split_no_sep[of "CHR '' ''" n "[]"] is_word_no_space[OF assms(2)] by simp
  finally show ?thesis
    unfolding parseParameter_def param_text_def fst_conv snd_conv tr by simp
qed

lemma paren_notin_js_join:
  "\<forall>t\<in>set toks. c \<notin> set t \<Longrightarrow> c \<notin> set sep \<Longrightarrow> c \<notin> set (js_join toks sep)"
  by (induction toks sep rule: js_join.induct) auto

lemma parseAPILine_annotation_line:
  assumes g: "plain grp" "CHR ''_'' \<notin> set grp"
    and n: "plain name"
    and r: "plain ret"
    and t: "\<forall>t\<in>set toks. plain t"
  shows "parseAPILine (annotation_line grp name ret toks)
         = Inr \<lparr>group = grp,
                api = \<lparr>api_ret = convertFunctionArgType (JString ret),
                       api_name = name,
                       api_params = filter_Boolean (map parseParameter toks)\<rparr>\<rparr>"
proof -
  define full where "full = grp @ ''_'' @ name"
  define P where "P = js_join toks '', ''"
  define pre where "pre = full @ '', '' @ ret"
  define content where "content = pre @ ''('' @ P @ ''))''"
  have line: "annotation_line grp name ret toks = API_PREFIX @ content"
    by (simp add: annotation_line_def content_def pre_def full_def P_def)
  have c1: "js_replace (annotation_line grp name ret toks) API_PREFIX [] = content"
    unfolding line by (rule js_replace_prefix)
  have full_plain: "CHR '','' \<notin> set full" "CHR ''('' \<notin> set full" "CHR '')'' \<notin> set full"
    using g n by (auto simp: full_def plain_def)
  have P_plain: "CHR '')'' \<notin> set P"
    unfolding P_def using t by (intro paren_notin_js_join) (auto simp: plain_def)
  have pre_plain: "CHR ''('' \<notin> set pre" "CHR '')'' \<notin> set pre"
    using full_plain r by (auto simp: pre_def plain_def)
  \<comment> \<open>the split of the content\<close>
  have "content = full @ '', '' @ ((ret @ ''('') @ P @ ''))'')"
    by (simp add: content_def pre_def)
  then have "js_split content '', '' = full # js_split ((ret @ ''('') @ P @ ''))'') '', ''"
    using js_split_sep[of "CHR '',''" full "'' ''" "(ret @ ''('') @ P @ ''))''"] full_plain(1)
    by simp
  moreover obtain u more where
    "js_split ((ret @ ''('') @ P @ ''))'') '', '' = ((ret @ ''('') @ u) # more"
    using js_split_first_piece[of "CHR '',''" "ret @ ''(''" "P @ ''))''" "'' ''"] r
    by (auto simp: plain_def)
  ultimately have c2: "js_split content '', '' = full # (ret @ CHR ''('' # u) # more"
    by simp
  \<comment> \<open>group and name\<close>
  have "js_split full ''_'' = grp # js_split name ''_''"
    using js_split_sep[of "CHR ''_''" grp "[]" name] g(2) by (simp add: full_def)
  moreover have "js_join (js_split name ''_'') ''_'' = name"
    by (rule js_join_split) simp
  ultimately have c3: "\<exists>parts. js_split full ''_'' = grp # parts \<and> js_join parts ''_'' = name"
    by simp
  \<comment> \<open>the return type\<close>
  have c4: "js_indexOf (ret @ CHR ''('' # u) ''('' 0 = int (length ret)"
    using js_indexOf_char[of "CHR ''(''" ret 0 u] r by (simp add: plain_def)
  have c5: "js_substring (ret @ CHR ''('' # u) 0 (int (length ret)) = ret"
    by (rule js_substring_prefix)
  \<comment> \<open>the parameter region\<close>
  have "content = (full @ '', '') @ ret @ (''('' @ P @ ''))'')"
    by (simp add: content_def pre_def)
  then have c6: "0 \<le> js_indexOf content ret 0" "js_indexOf content ret 0 \<le> int (length pre)"
    using js_indexOf_bound[of "full @ '', ''" ret "''('' @ P @ ''))''"]
    by (simp_all add: pre_def)
  have "content = pre @ CHR ''('' # (P @ ''))'')"
    by (simp add: content_def)
  then have c7: "js_indexOf content ''('' (js_indexOf content ret 0) = int (length pre)"
    using js_indexOf_char[of "CHR ''(''" pre "js_indexOf content ret 0" "P @ ''))''"] pre_plain(1) c6
    by simp
  have "content = (pre @ ''('' @ P) @ CHR '')'' # '')''"
    by (simp add: content_def)
  then have c8: "js_indexOf content '')'' 0 = int (length pre) + 1 + int (length P)"
    using js_indexOf_char[of "CHR '')''" "pre @ ''('' @ P" 0 "'')''"] pre_plain(2) P_plain
    by simp
  have "content = (pre @ ''('') @ P @ ''))''"
    by (simp add: content_def)
  then have c9: "js_substring content (int (length pre) + 1) (int (length pre) + 1 + int (length P)) = P"
    using js_substring_mid[of "pre @ ''(''" P "''))''"] by (simp add: add.commute)
  have "js_split P '', '' = (if toks = [] then [[]] else toks)"
    unfolding P_def using t by (intro js_split_join) (auto simp: plain_def)
  then have c10: "filter_Boolean (map parseParameter (js_split P '', ''))
                  = filter_Boolean (map parseParameter toks)"
    by (simp add: parseParameter_empty)
  from c3 obtain parts where c3': "js_split full ''_'' = grp # parts" "js_join parts ''_'' = name"
    by blast
  show ?thesis
    unfolding parseAPILine_def c1 Let_def c2 list.case c3' c4 c5 c7 c8 c9 c10 ..
qed

lemma plain_param_text: "is_word (fst p) \<Longrightarrow> is_word (snd p) \<Longrightarrow> plain (param_text p)"
  by (auto simp: is_word_def plain_def param_text_def)

lemma parseParameter_one_word:
  "length (js_split (js_trim tok) '' '') < 2 \<Longrightarrow> parseParameter tok = None"
  by (cases "js_split (js_trim tok) '' ''" rule: list.exhaust[case_product list.exhaust])
     (auto simp: parseParameter_def split: list.splits)

lemma filter_Boolean_append:
  "filter_Boolean (xs @ ys) = filter_Boolean xs @ filter_Boolean ys"
  by (induction xs rule: filter_Boolean.induct) auto

lemma filter_Boolean_words:
  "\<forall>p\<in>set ps. is_word (fst p) \<and> is_word (snd p) \<Longrightarrow>
   filter_Boolean (map parseParameter (map param_text ps))
   = map (\<lambda>p. \<lparr>param_name = snd p, param_type = convertFunctionArgType (JString (fst p))\<rparr>) ps"
proof (induction ps)
  case Nil
  then show ?case by simp
next
  case (Cons p ps)
  have "parseParameter (param_text p)
        = Some \<lparr>param_name = snd p, param_type = convertFunctionArgType (JString (fst p))\<rparr>"
    using parseParameter_param_text[of "fst p" "snd p"] Cons.prems by simp
  with Cons show ?case by simp
qed

lemma parseAPILine_words_line:
  assumes "plain grp" "CHR ''_'' \<notin> set grp" "plain name" "plain ret"
    and "\<forall>p\<in>set ps. is_word (fst p) \<and> is_word (snd p)"
  shows "parseAPILine (annotation_line grp name ret (map param_text ps))
         = Inr \<lparr>group = grp,
                api = \<lparr>api_ret = convertFunctionArgType (JString ret),
                       api_name = name,
                       api_params =
                         map (\<lambda>p. \<lparr>param_name = snd p,
                                   param_type = convertFunctionArgType (JString (fst p))\<rparr>) ps\<rparr>\<rparr>"
proof -
  have pl: "\<forall>t\<in>set (map param_text ps). plain t"
    using assms(5) by (auto intro: plain_param_text)
  have "parseAPILine (annotation_line grp name ret (map param_text ps))
        = Inr \<lparr>group = grp,
               api = \<lparr>api_ret = convertFunctionArgType (JString ret),
                      api_name = name,
                      api_params = filter_Boolean (map parseParameter (map param_text ps))\<rparr>\<rparr>"
    using assms(1-4) pl by (rule parseAPILine_annotation_line)
  then show ?thesis
    by (simp only: filter_Boolean_words[OF assms(5)])
qed

lemma convertFunctionArgType_basic:
  "convertFunctionArgType (JString ''int'') = JString ''int''"
  "convertFunctionArgType (JString ''float'') = JString ''float''"
  "convertFunctionArgType (JString ''bool'') = JString ''bool''"
  "convertFunctionArgType (JString ''uint32_t'') = JString ''uint32_t''"
  "convertFunctionArgType (JString ''unsigned'') = JString ''unsigned''"
  "convertFunctionArgType (JString ''objectPtr'') = JString ''void*''"
  "convertFunctionArgType (JString ''StringCharPtr'') = JString ''const char*''"
  by (simp_all add: convertFunctionArgType_def js_get_or_def js_get_def
        TYPE_MAPPINGS_function_def Object_prototype_names_def)

section \<open>Lines without parameters\<close>

text \<open>
  Claim C10.  An annotation line of the grammar with nothing between the parentheses parses
  without error to a record with no parameters: the split of the empty parameter region is the
  single empty token, and the parameter parser answers \<^verbatim>\<open>undefined\<close> for it, which the
  filter drops.
\<close>

theorem zero_parameter_line:
  assumes "plain grp" "CHR ''_'' \<notin> set grp" "plain name" "plain ret"
  shows "parseAPILine (API_PREFIX @ grp @ ''_'' @ name @ '', '' @ ret @ ''())'')
         = Inr \<lparr>group = grp,
                api = \<lparr>api_ret = convertFunctionArgType (JString ret),
                       api_name = name,
                       api_params = []\<rparr>\<rparr>
         \<and> js_split [] '', '' = [[]]
         \<and> parseParameter [] = None"
proof -
  have "parseAPILine (annotation_line grp name ret [])
        = Inr \<lparr>group = grp,
               api = \<lparr>api_ret = convertFunctionArgType (JString ret),
                      api_name = name,
                      api_params = filter_Boolean (map parseParameter [])\<rparr>\<rparr>"
    using assms by (intro parseAPILine_annotation_line) simp_all
  then show ?thesis
    by (simp add: annotation_line_def parseParameter_empty)
qed

theorem zero_parameter_line_witness:
  "plain ''Core'' \<and> CHR ''_'' \<notin> set ''Core'' \<and> plain ''TickCount'' \<and> plain ''uint32_t''
   \<and> parseAPILine ''OMP_CAPI(Core_TickCount, uint32_t())''
       = Inr \<lparr>group = ''Core'',
              api = \<lparr>api_ret = JString ''uint32_t'', api_name = ''TickCount'', api_params = []\<rparr>\<rparr>"
proof -
  have h: "plain ''Core''" "CHR ''_'' \<notin> set ''Core''" "plain ''TickCount''" "plain ''uint32_t''"
    by (simp_all add: plain_def)
  show ?thesis
    using h zero_parameter_line[OF h] by (simp add: API_PREFIX_def convertFunctionArgType_basic)
qed

section \<open>A parameter token of one word\<close>

text \<open>
  Claim C7.  On an annotation line of the grammar, a parameter token with fewer than two
  space-separated words is dropped and nothing else is: the parse does not abort, the record of
  the line is produced, and the well-formed parameters before and after the token are all kept,
  in their order.
\<close>

theorem one_word_parameter_dropped:
  assumes "plain grp" "CHR ''_'' \<notin> set grp" "plain name" "plain ret"
    and "\<forall>p\<in>set (before @ after). is_word (fst p) \<and> is_word (snd p)"
    and "plain bad" "length (js_split (js_trim bad) '' '') < 2"
  shows "parseAPILine
           (annotation_line grp name ret (map param_text before @ bad # map param_text after))
         = Inr \<lparr>group = grp,
                api = \<lparr>api_ret = convertFunctionArgType (JString ret),
                       api_name = name,
                       api_params =
                         map (\<lambda>p. \<lparr>param_name = snd p,
                                   param_type = convertFunctionArgType (JString (fst p))\<rparr>)
                           (before @ after)\<rparr>\<rparr>"
proof -
  let ?toks = "map param_text before @ bad # map param_text after"
  have pl: "\<forall>t\<in>set ?toks. plain t"
    using assms(5,6) by (auto intro: plain_param_text)
  have b: "\<forall>p\<in>set before. is_word (fst p) \<and> is_word (snd p)"
    and a: "\<forall>p\<in>set after. is_word (fst p) \<and> is_word (snd p)"
    using assms(5) by auto
  have "filter_Boolean (map parseParameter ?toks)
        = filter_Boolean (map parseParameter (map param_text before))
          @ filter_Boolean (map parseParameter (map param_text after))"
    using parseParameter_one_word[OF assms(7)] by (simp add: filter_Boolean_append)
  then have "filter_Boolean (map parseParameter ?toks)
        = map (\<lambda>p. \<lparr>param_name = snd p,
                     param_type = convertFunctionArgType (JString (fst p))\<rparr>) (before @ after)"
    by (simp only: filter_Boolean_words[OF b] filter_Boolean_words[OF a] map_append)
  then show ?thesis
    using parseAPILine_annotation_line[OF assms(1-4) pl] by simp
qed

theorem one_word_parameter_dropped_witness:
  "plain ''Foo'' \<and> CHR ''_'' \<notin> set ''Foo'' \<and> plain ''Bar'' \<and> plain ''int''
   \<and> is_word ''int'' \<and> is_word ''a'' \<and> is_word ''float'' \<and> is_word ''b''
   \<and> plain ''x'' \<and> length (js_split (js_trim ''x'') '' '') < 2
   \<and> parseAPILine ''OMP_CAPI(Foo_Bar, int(int a, x, float b))''
       = Inr \<lparr>group = ''Foo'',
              api = \<lparr>api_ret = JString ''int'',
                     api_name = ''Bar'',
                     api_params = [\<lparr>param_name = ''a'', param_type = JString ''int''\<rparr>,
                                   \<lparr>param_name = ''b'', param_type = JString ''float''\<rparr>]\<rparr>\<rparr>"
proof -
  have h: "plain ''Foo''" "CHR ''_'' \<notin> set ''Foo''" "plain ''Bar''" "plain ''int''"
    by (simp_all add: plain_def)
  have w: "is_word ''int''" "is_word ''a''" "is_word ''float''" "is_word ''b''"
    by (simp_all add: is_word_def plain_def js_isWhiteSpace_def)
  then have ws: "\<forall>p\<in>set ([(''int'', ''a'')] @ [(''float'', ''b'')]).
                   is_word (fst p) \<and> is_word (snd p)"
    by simp
  have b: "plain ''x''" "length (js_split (js_trim ''x'') '' '') < 2"
    by (simp_all add: plain_def js_trim_def js_isWhiteSpace_def)
  have "parseAPILine ''OMP_CAPI(Foo_Bar, int(int a, x, float b))''
       = Inr \<lparr>group = ''Foo'',
              api = \<lparr>api_ret = JString ''int'',
                     api_name = ''Bar'',
                     api_params = [\<lparr>param_name = ''a'', param_type = JString ''int''\<rparr>,
                                   \<lparr>param_name = ''b'', param_type = JString ''float''\<rparr>]\<rparr>\<rparr>"
    using one_word_parameter_dropped[OF h ws b]
    by (simp add: annotation_line_def API_PREFIX_def param_text_def convertFunctionArgType_basic)
  with h w b show ?thesis by simp
qed

section \<open>Parsing and rendering the parameter list\<close>

text \<open>
  Claim C4, as stated, fails: the parser normalizes every type token, so the rendered list of a
  line with the parameters \<^verbatim>\<open>objectPtr player, StringCharPtr name\<close> is
  \<^verbatim>\<open>void* player, const char* name\<close>, not the original text.
\<close>

theorem parse_then_render_parameters_counterexample:
  "parseAPILine ''OMP_CAPI(Player_SetName, bool(objectPtr player, StringCharPtr name))''
     = Inr \<lparr>group = ''Player'',
            api = \<lparr>api_ret = JString ''bool'',
                   api_name = ''SetName'',
                   api_params = [\<lparr>param_name = ''player'', param_type = JString ''void*''\<rparr>,
                                 \<lparr>param_name = ''name'', param_type = JString ''const char*''\<rparr>]\<rparr>\<rparr>
   \<and> typedef_params [\<lparr>param_name = ''player'', param_type = JString ''void*''\<rparr>,
                      \<lparr>param_name = ''name'', param_type = JString ''const char*''\<rparr>]
     = ''void* player, const char* name''
   \<and> ''void* player, const char* name'' \<noteq> ''objectPtr player, StringCharPtr name''"
proof -
  have h: "plain ''Player''" "CHR ''_'' \<notin> set ''Player''" "plain ''SetName''" "plain ''bool''"
    by (simp_all add: plain_def)
  have ws: "\<forall>p\<in>set [(''objectPtr'', ''player''), (''StringCharPtr'', ''name'')].
              is_word (fst p) \<and> is_word (snd p)"
    by (simp add: is_word_def plain_def js_isWhiteSpace_def)
  have "parseAPILine ''OMP_CAPI(Player_SetName, bool(objectPtr player, StringCharPtr name))''
     = Inr \<lparr>group = ''Player'',
            api = \<lparr>api_ret = JString ''bool'',
                   api_name = ''SetName'',
                   api_params = [\<lparr>param_name = ''player'', param_type = JString ''void*''\<rparr>,
                                 \<lparr>param_name = ''name'', param_type = JString ''const char*''\<rparr>]\<rparr>\<rparr>"
    using parseAPILine_words_line[OF h ws]
    by (simp add: annotation_line_def API_PREFIX_def param_text_def convertFunctionArgType_basic)
  moreover have "typedef_params [\<lparr>param_name = ''player'', param_type = JString ''void*''\<rparr>,
                      \<lparr>param_name = ''name'', param_type = JString ''const char*''\<rparr>]
     = ''void* player, const char* name''"
    by (simp add: typedef_params_def)
  ultimately show ?thesis by simp
qed

lemma comma_notin_convertFunctionArgType:
  assumes "CHR '','' \<notin> set t"
  shows "CHR '','' \<notin> set (js_toString (convertFunctionArgType (JString t)))"
proof (cases "map_of TYPE_MAPPINGS_function t")
  case (Some v)
  then have "v \<in> set (map snd TYPE_MAPPINGS_function)"
    by (force dest: map_of_SomeD)
  moreover have "list_all (\<lambda>v. v \<noteq> [] \<and> CHR '','' \<notin> set v) (map snd TYPE_MAPPINGS_function)"
    by (simp add: TYPE_MAPPINGS_function_def)
  ultimately have "v \<noteq> [] \<and> CHR '','' \<notin> set v"
    by (auto simp: list_all_iff)
  with Some show ?thesis
    by (simp add: convertFunctionArgType_def js_get_or_def js_get_def)
next
  case None
  with assms show ?thesis
    by (simp add: convertFunctionArgType_def js_get_or_def js_get_def)
qed

lemma convertFunctionArgType_toString_fixed:
  assumes "CHR '' '' \<notin> set t" "js_toString (convertFunctionArgType (JString t)) = t"
  shows "convertFunctionArgType (JString t) = JString t"
proof (cases "convertFunctionArgType (JString t)")
  case (JString s)
  with assms(2) show ?thesis by simp
next
  case (JInherited k)
  have "CHR '' '' \<in> set (js_toString (JInherited k))" by simp
  with assms JInherited show ?thesis by simp
qed

lemma js_join_comma_inject:
  assumes "\<forall>p\<in>set ps. CHR '','' \<notin> set (f p)" "\<forall>p\<in>set ps. CHR '','' \<notin> set (g p)"
    and "js_join (map f ps) '', '' = js_join (map g ps) '', ''"
  shows "\<forall>p\<in>set ps. f p = g p"
proof (cases "ps = []")
  case True
  then show ?thesis by simp
next
  case False
  have "js_split (js_join (map f ps) '', '') '', '' = map f ps"
    using js_split_join[of "map f ps" "CHR '',''" "'' ''"] assms(1) False by simp
  moreover have "js_split (js_join (map g ps) '', '') '', '' = map g ps"
    using js_split_join[of "map g ps" "CHR '',''" "'' ''"] assms(2) False by simp
  ultimately have "map f ps = map g ps" using assms(3) by simp
  then show ?thesis by simp
qed

text \<open>
  The rendered list is the original parameter text if and only if the normalization leaves
  every type token of the line as it is.
\<close>

lemma typedef_params_original_iff:
  assumes "\<forall>p\<in>set ps. is_word (fst p) \<and> is_word (snd p)"
  shows "js_join (map (\<lambda>p. js_toString (convertFunctionArgType (JString (fst p)))
                                 @ '' '' @ snd p) ps) '', ''
         = js_join (map param_text ps) '', ''
         \<longleftrightarrow> (\<forall>p\<in>set ps. convertFunctionArgType (JString (fst p)) = JString (fst p))"
proof
  assume eq: "js_join (map (\<lambda>p. js_toString (convertFunctionArgType (JString (fst p)))
                                 @ '' '' @ snd p) ps) '', ''
         = js_join (map param_text ps) '', ''"
  have w: "\<forall>p\<in>set ps. CHR '','' \<notin> set (fst p) \<and> CHR '','' \<notin> set (snd p)
             \<and> CHR '' '' \<notin> set (fst p)"
  proof
    fix p assume "p \<in> set ps"
    with assms have a: "is_word (fst p)" "is_word (snd p)" by auto
    then have "CHR '','' \<notin> set (fst p)" "CHR '','' \<notin> set (snd p)"
      by (simp_all add: is_word_def plain_def)
    with is_word_no_space[OF a(1)]
    show "CHR '','' \<notin> set (fst p) \<and> CHR '','' \<notin> set (snd p) \<and> CHR '' '' \<notin> set (fst p)"
      by simp
  qed
  have 1: "\<forall>p\<in>set ps. CHR '','' \<notin> set (js_toString (convertFunctionArgType (JString (fst p)))
                                 @ '' '' @ snd p)"
    using w comma_notin_convertFunctionArgType by simp
  have 2: "\<forall>p\<in>set ps. CHR '','' \<notin> set (param_text p)"
    using w by (simp add: param_text_def)
  have "\<forall>p\<in>set ps. js_toString (convertFunctionArgType (JString (fst p))) @ '' '' @ snd p
                    = param_text p"
    using 1 2 eq by (rule js_join_comma_inject)
  then have "\<forall>p\<in>set ps. js_toString (convertFunctionArgType (JString (fst p))) = fst p"
    by (simp add: param_text_def)
  with w show "\<forall>p\<in>set ps. convertFunctionArgType (JString (fst p)) = JString (fst p)"
    by (auto intro: convertFunctionArgType_toString_fixed)
next
  assume "\<forall>p\<in>set ps. convertFunctionArgType (JString (fst p)) = JString (fst p)"
  then have "map (\<lambda>p. js_toString (convertFunctionArgType (JString (fst p))) @ '' '' @ snd p) ps
          = map param_text ps"
    by (simp add: param_text_def)
  then show "js_join (map (\<lambda>p. js_toString (convertFunctionArgType (JString (fst p)))
                                 @ '' '' @ snd p) ps) '', ''
         = js_join (map param_text ps) '', ''"
    by (simp only:)
qed

text \<open>
  Claim C4, amended.  For every annotation line of the grammar whose parameters are pairs of
  a type word and a name word, parsing succeeds and keeps the pairs in their order, each name
  unchanged and each type normalized by the function-signature table; rendering the parsed list
  as the typedefs do gives the normalized types with the names, joined by comma and space; and
  the rendered list is the original parameter text exactly when the normalization changes no
  type token of the line.
\<close>

theorem parse_then_render_parameters:
  assumes "plain grp" "CHR ''_'' \<notin> set grp" "plain name" "plain ret"
    and "\<forall>p\<in>set ps. is_word (fst p) \<and> is_word (snd p)"
  shows "\<exists>r. parseAPILine (annotation_line grp name ret (map param_text ps)) = Inr r
           \<and> map (\<lambda>q. (param_type q, param_name q)) (api_params (api r))
               = map (\<lambda>p. (convertFunctionArgType (JString (fst p)), snd p)) ps
           \<and> typedef_params (api_params (api r))
               = js_join (map (\<lambda>p. js_toString (convertFunctionArgType (JString (fst p)))
                                      @ '' '' @ snd p) ps) '', ''
           \<and> (typedef_params (api_params (api r)) = js_join (map param_text ps) '', ''
                \<longleftrightarrow> (\<forall>p\<in>set ps. convertFunctionArgType (JString (fst p)) = JString (fst p)))"
proof -
  let ?params = "map (\<lambda>p. \<lparr>param_name = snd p,
                            param_type = convertFunctionArgType (JString (fst p))\<rparr>) ps"
  let ?r = "\<lparr>group = grp,
             api = \<lparr>api_ret = convertFunctionArgType (JString ret),
                    api_name = name,
                    api_params = ?params\<rparr>\<rparr>"
  have 1: "parseAPILine (annotation_line grp name ret (map param_text ps)) = Inr ?r"
    using assms by (rule parseAPILine_words_line)
  have 2: "map (\<lambda>q. (param_type q, param_name q)) ?params
           = map (\<lambda>p. (convertFunctionArgType (JString (fst p)), snd p)) ps"
    by simp
  have 3: "typedef_params ?params
           = js_join (map (\<lambda>p. js_toString (convertFunctionArgType (JString (fst p)))
                                 @ '' '' @ snd p) ps) '', ''"
    by (simp add: typedef_params_def comp_def)
  have 4: "typedef_params ?params = js_join (map param_text ps) '', ''
           \<longleftrightarrow> (\<forall>p\<in>set ps. convertFunctionArgType (JString (fst p)) = JString (fst p))"
    unfolding 3 using assms(5) by (rule typedef_params_original_iff)
  show ?thesis
    using 1 2 3 4 by (intro exI[of _ ?r]) simp
qed

theorem parse_then_render_parameters_witness:
  "\<exists>r. parseAPILine ''OMP_CAPI(Player_SetHealth, bool(int playerid, float health))'' = Inr r
     \<and> map param_name (api_params (api r)) = [''playerid'', ''health'']
     \<and> map param_type (api_params (api r)) = [JString ''int'', JString ''float'']
     \<and> typedef_params (api_params (api r)) = ''int playerid, float health''"
proof -
  have h: "plain ''Player''" "CHR ''_'' \<notin> set ''Player''" "plain ''SetHealth''" "plain ''bool''"
    by (simp_all add: plain_def)
  have ws: "\<forall>p\<in>set [(''int'', ''playerid''), (''float'', ''health'')].
              is_word (fst p) \<and> is_word (snd p)"
    by (simp add: is_word_def plain_def js_isWhiteSpace_def)
  have un: "\<forall>p\<in>set [(''int'', ''playerid''), (''float'', ''health'')].
              convertFunctionArgType (JString (fst p)) = JString (fst p)"
    by (simp add: convertFunctionArgType_basic)
  obtain r where
    r: "parseAPILine (annotation_line ''Player'' ''SetHealth'' ''bool''
          (map param_text [(''int'', ''playerid''), (''float'', ''health'')])) = Inr r"
      "map (\<lambda>q. (param_type q, param_name q)) (api_params (api r))
         = map (\<lambda>p. (convertFunctionArgType (JString (fst p)), snd p))
             [(''int'', ''playerid''), (''float'', ''health'')]"
      "typedef_params (api_params (api r))
           = js_join (map param_text [(''int'', ''playerid''), (''float'', ''health'')]) '', ''
       \<longleftrightarrow> (\<forall>p\<in>set [(''int'', ''playerid''), (''float'', ''health'')].
              convertFunctionArgType (JString (fst p)) = JString (fst p))"
    using parse_then_render_parameters[OF h ws] by blast
  have l: "annotation_line ''Player'' ''SetHealth'' ''bool''
             (map param_text [(''int'', ''playerid''), (''float'', ''health'')])
           = ''OMP_CAPI(Player_SetHealth, bool(int playerid, float health))''"
    by (simp add: annotation_line_def API_PREFIX_def param_text_def)
  have n: "map param_name (api_params (api r)) = [''playerid'', ''health'']"
    using arg_cong[OF r(2), of "map snd"] by (simp add: comp_def)
  have t: "map param_type (api_params (api r)) = [JString ''int'', JString ''float'']"
    using arg_cong[OF r(2), of "map fst"] by (simp add: comp_def convertFunctionArgType_basic)
  have "typedef_params (api_params (api r))
        = js_join (map param_text [(''int'', ''playerid''), (''float'', ''health'')]) '', ''"
    using r(3) un by (rule iffD2)
  then have tp: "typedef_params (api_params (api r)) = ''int playerid, float health''"
    by (simp add: param_text_def)
  from r(1)[unfolded l] n t tp show ?thesis
    by - (rule exI[of _ r], intro conjI, assumption+)
qed

section \<open>The words of a parameter token\<close>

lemma js_split_char_two:
  assumes "c \<in> set s"
  shows "\<exists>more. js_split s [c]
           = takeWhile (\<lambda>x. x \<noteq> c) s
             # takeWhile (\<lambda>x. x \<noteq> c) (tl (dropWhile (\<lambda>x. x \<noteq> c) s)) # more"
proof -
  have ne: "dropWhile (\<lambda>x. x \<noteq> c) s \<noteq> []"
    using assms by (auto simp: dropWhile_eq_Nil_conv)
  then have "hd (dropWhile (\<lambda>x. x \<noteq> c) s) = c"
    using hd_dropWhile[OF ne] by simp
  with ne obtain r where d: "dropWhile (\<lambda>x. x \<noteq> c) s = c # r"
    by (cases "dropWhile (\<lambda>x. x \<noteq> c) s") auto
  have "js_split s [c] = takeWhile (\<lambda>x. x \<noteq> c) s # js_split r [c]"
    by (subst js_split_char) (simp add: d)
  also have "js_split r [c] = takeWhile (\<lambda>x. x \<noteq> c) r
       # (case dropWhile (\<lambda>x. x \<noteq> c) r of [] \<Rightarrow> [] | _ # r' \<Rightarrow> js_split r' [c])"
    by (rule js_split_char)
  finally show ?thesis by (simp add: d)
qed

text \<open>
  Claim C5, as stated, fails: the token is cut at every space and the name is the second piece
  only, so the token \<^verbatim>\<open>unsigned int x\<close> gets the name \<^verbatim>\<open>int\<close>, not the
  remainder \<^verbatim>\<open>int x\<close> after the first space.
\<close>

theorem parseParameter_first_space_counterexample:
  "parseParameter ''unsigned int x''
     = Some \<lparr>param_name = ''int'', param_type = JString ''unsigned''\<rparr>
   \<and> ''int'' \<noteq> ''int x''"
  by (simp add: parseParameter_def js_trim_def js_isWhiteSpace_def convertFunctionArgType_basic)

text \<open>
  Claim C5, amended.  For every parameter token that still contains a space after trimming,
  the parser answers a parameter whose type is the normalized text before the first space of
  the trimmed token and whose name is the text between the first space and the second one (all
  of the remainder when there is no second space); whatever follows a second space is
  discarded.
\<close>

theorem parseParameter_splits_at_every_space:
  assumes "CHR '' '' \<in> set (js_trim tok)"
  shows "parseParameter tok
         = Some \<lparr>param_name =
                   takeWhile (\<lambda>c. c \<noteq> CHR '' '')
                     (tl (dropWhile (\<lambda>c. c \<noteq> CHR '' '') (js_trim tok))),
                 param_type =
                   convertFunctionArgType
                     (JString (takeWhile (\<lambda>c. c \<noteq> CHR '' '') (js_trim tok)))\<rparr>"
proof -
  obtain more where
    "js_split (js_trim tok) '' ''
       = takeWhile (\<lambda>c. c \<noteq> CHR '' '') (js_trim tok)
         # takeWhile (\<lambda>c. c \<noteq> CHR '' '') (tl (dropWhile (\<lambda>c. c \<noteq> CHR '' '') (js_trim tok)))
         # more"
    using js_split_char_two[OF assms] by blast
  then show ?thesis by (simp add: parseParameter_def)
qed

theorem parseParameter_splits_at_every_space_witness:
  "CHR '' '' \<in> set (js_trim ''  const char* text '')
   \<and> parseParameter ''  const char* text ''
       = Some \<lparr>param_name = ''char*'', param_type = JString ''const''\<rparr>"
proof -
  have t: "js_trim ''  const char* text '' = ''const char* text''"
    by (simp add: js_trim_def js_isWhiteSpace_def)
  have h: "CHR '' '' \<in> set (js_trim ''  const char* text '')"
    unfolding t by simp
  have c: "convertFunctionArgType (JString ''const'') = JString ''const''"
    by (simp add: convertFunctionArgType_def js_get_or_def js_get_def
        TYPE_MAPPINGS_function_def Object_prototype_names_def)
  show ?thesis
    using h parseParameter_splits_at_every_space[OF h] unfolding t by (simp add: c)
qed

section \<open>Type normalization\<close>

lemma js_toString_inherited_hd:
  "hd (js_toString (JInherited n)) \<in> set ''[f''"
  by simp

lemma js_toString_inherited_not_prototype_name:
  "js_toString (JInherited n) \<notin> set Object_prototype_names"
  by (simp add: Object_prototype_names_def)

text \<open>
  A table none of whose values is a key of it or a name inherited from the prototype, and none
  of whose keys looks like a converted inherited object, normalizes in one step.
\<close>

lemma js_get_or_idem:
  assumes vals: "list_all (\<lambda>v. v \<notin> set (map fst table) \<and> v \<notin> set Object_prototype_names)
                   (map snd table)"
    and keys: "list_all (\<lambda>k. hd k \<notin> set ''[f'') (map fst table)"
  shows "js_get_or table (js_get_or table t) = js_get_or table t"
proof (cases "js_get table t")
  case None
  then show ?thesis by (simp add: js_get_or_def)
next
  case (Some v)
  show ?thesis
  proof (cases "js_truthy v")
    case False
    with Some show ?thesis by (simp add: js_get_or_def)
  next
    case True
    with Some have r: "js_get_or table t = v" by (simp add: js_get_or_def)
    have "js_get table v = None"
    proof (cases v)
      case (JString s)
      with Some obtain k where "map_of table k = Some s"
        by (auto simp: js_get_def Let_def split: option.splits if_splits)
      then have "s \<in> set (map snd table)"
        by (force dest: map_of_SomeD)
      with vals have "s \<notin> set (map fst table)" "s \<notin> set Object_prototype_names"
        by (auto simp: list_all_iff)
      then have "map_of table s = None" "s \<notin> set Object_prototype_names"
        by (simp_all add: map_of_eq_None_iff)
      then show ?thesis using JString by (simp add: js_get_def)
    next
      case (JInherited n)
      have "js_toString (JInherited n) \<notin> set (map fst table)"
        using keys js_toString_inherited_hd[of n]
        by (auto simp: list_all_iff simp del: js_toString.simps)
      then have "map_of table (js_toString (JInherited n)) = None"
        by (simp add: map_of_eq_None_iff del: js_toString.simps)
      then have "js_get table (JInherited n) = None"
        unfolding js_get_def Let_def
        using js_toString_inherited_not_prototype_name[of n] by (simp del: js_toString.simps)
      with JInherited show ?thesis by simp
    qed
    then have "js_get_or table v = v" by (simp add: js_get_or_def)
    with r show ?thesis by simp
  qed
qed

lemma convertFunctionArgType_idem:
  "convertFunctionArgType (convertFunctionArgType t) = convertFunctionArgType t"
  unfolding convertFunctionArgType_def
  by (rule js_get_or_idem)
     (simp_all add: TYPE_MAPPINGS_function_def Object_prototype_names_def)

lemma convertEventArgType_idem:
  "convertEventArgType (convertEventArgType t) = convertEventArgType t"
  unfolding convertEventArgType_def
  by (rule js_get_or_idem)
     (simp_all add: TYPE_MAPPINGS_event_def Object_prototype_names_def)

lemma convertTypeName_idem:
  "convertTypeName (convertTypeName t) = convertTypeName t"
  unfolding convertTypeName_def
  by (rule js_get_or_idem)
     (simp_all add: json_TYPE_MAPPINGS_def Object_prototype_names_def)

text \<open>
  Claim C8.  Each of the three normalizations (the function-signature table, the event-argument
  table and the table of the JSON generator) is idempotent: normalizing the result of a
  normalization gives it back unchanged.  This holds for every value, a string token or an
  object inherited from the prototype.
\<close>

theorem type_normalization_idempotent:
  "convertFunctionArgType (convertFunctionArgType t) = convertFunctionArgType t
   \<and> convertEventArgType (convertEventArgType t) = convertEventArgType t
   \<and> convertTypeName (convertTypeName t) = convertTypeName t"
  by (simp only: convertFunctionArgType_idem convertEventArgType_idem convertTypeName_idem)

section \<open>The scenario of \<^verbatim>\<open>Actor_Create\<close>\<close>

text \<open>
  Claim C2.  The line
  \<^verbatim>\<open>OMP_CAPI(Actor_Create, objectPtr(int modelid, float x, float y, float z, float rotation, int* id))\<close>
  parses to the group \<^verbatim>\<open>Actor\<close>, the name \<^verbatim>\<open>Create\<close>, the return type
  \<^verbatim>\<open>void*\<close> and the six parameters in their order.
\<close>

theorem parseAPILine_Actor_Create:
  "parseAPILine
     ''OMP_CAPI(Actor_Create, objectPtr(int modelid, float x, float y, float z, float rotation, int* id))''
   = Inr \<lparr>group = ''Actor'',
          api = \<lparr>api_ret = JString ''void*'',
                 api_name = ''Create'',
                 api_params =
                   [\<lparr>param_name = ''modelid'', param_type = JString ''int''\<rparr>,
                    \<lparr>param_name = ''x'', param_type = JString ''float''\<rparr>,
                    \<lparr>param_name = ''y'', param_type = JString ''float''\<rparr>,
                    \<lparr>param_name = ''z'', param_type = JString ''float''\<rparr>,
                    \<lparr>param_name = ''rotation'', param_type = JString ''float''\<rparr>,
                    \<lparr>param_name = ''id'', param_type = JString ''int*''\<rparr>]\<rparr>\<rparr>"
proof -
  have h: "plain ''Actor''" "CHR ''_'' \<notin> set ''Actor''" "plain ''Create''" "plain ''objectPtr''"
    by (simp_all add: plain_def)
  have ws: "\<forall>p\<in>set [(''int'', ''modelid''), (''float'', ''x''), (''float'', ''y''),
                     (''float'', ''z''), (''float'', ''rotation''), (''int*'', ''id'')].
              is_word (fst p) \<and> is_word (snd p)"
    by (simp add: is_word_def plain_def js_isWhiteSpace_def)
  have c: "convertFunctionArgType (JString ''int*'') = JString ''int*''"
    by (simp add: convertFunctionArgType_def js_get_or_def js_get_def
        TYPE_MAPPINGS_function_def Object_prototype_names_def)
  show ?thesis
    using parseAPILine_words_line[OF h ws]
    by (simp add: annotation_line_def API_PREFIX_def param_text_def convertFunctionArgType_basic c)
qed


section \<open>The two line parsers\<close>

lemma param_names_agree:
  "map param_name (filter_Boolean (map parseParameter toks))
   = map param_name (filter_Boolean (map json_parseParameter toks))"
proof (induction toks)
  case Nil
  then show ?case by simp
next
  case (Cons t toks)
  then show ?case
    by (auto simp: parseParameter_def json_parseParameter_def split: list.splits)
qed

lemma js_split_char_length: "c \<in> set s \<Longrightarrow> 2 \<le> length (js_split s [c])"
  using js_split_char_two[of c s] by auto

lemma js_split_underscore:
  assumes "js_split full ''_'' = g # ns" "CHR ''_'' \<in> set full"
  shows "full = g @ ''_'' @ js_join ns ''_''"
proof -
  have "js_join (g # ns) ''_'' = full"
    using js_join_split[of "''_''" full] assms(1) by simp
  moreover have "ns \<noteq> []"
    using js_split_char_length[OF assms(2)] assms(1) by auto
  ultimately show ?thesis by (cases ns) auto
qed

text \<open>
  Claim C9.  On every line the parser of the header generator and the parser of the JSON
  generator either both throw, or both answer a record; then the two records have the same
  number of parameters with the same names in the same order, and whenever the full name (the
  flat name of the JSON record) contains an underscore, it is the group of the header record,
  an underscore and the name of the header record.
\<close>

theorem parsers_agree:
  "(\<exists>h j. parseAPILine line = Inr h \<and> json_parseAPILine line = Inr j
        \<and> length (api_params (api h)) = length (api_params (component_api j))
        \<and> map param_name (api_params (api h)) = map param_name (api_params (component_api j))
        \<and> (CHR ''_'' \<in> set (api_name (component_api j))
             \<longrightarrow> api_name (component_api j) = group h @ ''_'' @ api_name (api h)))
   \<or> (parseAPILine line = Inl TypeError \<and> json_parseAPILine line = Inl TypeError)"
proof (cases "js_split (js_replace line API_PREFIX []) '', ''")
  case Nil
  then show ?thesis by (simp add: parseAPILine_def json_parseAPILine_def)
next
  case (Cons full more)
  note outer = Cons
  show ?thesis
  proof (cases more)
    case Nil
    with outer show ?thesis by (simp add: parseAPILine_def json_parseAPILine_def)
  next
    case (Cons rest more')
    have "js_split full ''_'' \<noteq> []" by (rule js_split_not_Nil) simp
    then obtain g ns where sp: "js_split full ''_'' = g # ns"
      by (cases "js_split full ''_''") auto
    have nm: "CHR ''_'' \<in> set full \<Longrightarrow> full = g @ ''_'' @ js_join ns ''_''"
      using js_split_underscore[OF sp] .
    have len: "\<And>toks. length (filter_Boolean (map parseParameter toks))
                 = length (filter_Boolean (map json_parseParameter toks))"
      using param_names_agree by (metis length_map)
    show ?thesis
      using outer Cons sp nm
      by (simp add: parseAPILine_def json_parseAPILine_def Let_def param_names_agree len)
  qed
qed

theorem parsers_agree_witness:
  "\<exists>h j. parseAPILine ''OMP_CAPI(Actor_Get_Pos, bool(objectPtr actor, OutputStringViewPtr out))''
            = Inr h
        \<and> json_parseAPILine
            ''OMP_CAPI(Actor_Get_Pos, bool(objectPtr actor, OutputStringViewPtr out))'' = Inr j
        \<and> map param_name (api_params (api h)) = [''actor'', ''out'']
        \<and> map param_name (api_params (component_api j)) = [''actor'', ''out'']
        \<and> CHR ''_'' \<in> set (api_name (component_api j))
        \<and> api_name (component_api j) = group h @ ''_'' @ api_name (api h)
        \<and> group h = ''Actor'' \<and> api_name (api h) = ''Get_Pos''"
proof -
  let ?L = "''OMP_CAPI(Actor_Get_Pos, bool(objectPtr actor, OutputStringViewPtr out))''"
  have hh: "plain ''Actor''" "CHR ''_'' \<notin> set ''Actor''" "plain ''Get_Pos''" "plain ''bool''"
    by (simp_all add: plain_def)
  have ws: "\<forall>p\<in>set [(''objectPtr'', ''actor''), (''OutputStringViewPtr'', ''out'')].
              is_word (fst p) \<and> is_word (snd p)"
    by (simp add: is_word_def plain_def js_isWhiteSpace_def)
  have l: "annotation_line ''Actor'' ''Get_Pos'' ''bool''
             (map param_text [(''objectPtr'', ''actor''), (''OutputStringViewPtr'', ''out'')]) = ?L"
    by (simp add: annotation_line_def API_PREFIX_def param_text_def)
  define H where "H = \<lparr>group = ''Actor'',
            api = \<lparr>api_ret = convertFunctionArgType (JString ''bool''),
                   api_name = ''Get_Pos'',
                   api_params = map (\<lambda>p. \<lparr>param_name = snd p,
                                   param_type = convertFunctionArgType (JString (fst p))\<rparr>)
                      [(''objectPtr'', ''actor''), (''OutputStringViewPtr'', ''out'')]\<rparr>\<rparr>"
  have p: "parseAPILine ?L = Inr H"
    using parseAPILine_words_line[OF hh ws] unfolding l H_def .
  have c: "js_split (js_replace ?L API_PREFIX []) '', ''
           = [''Actor_Get_Pos'', ''bool(objectPtr actor'', ''OutputStringViewPtr out))'']"
    by (simp add: js_replace_def API_PREFIX_def)
  from parsers_agree[of ?L] p obtain j where
    j: "json_parseAPILine ?L = Inr j"
       "map param_name (api_params (api H)) = map param_name (api_params (component_api j))"
       "CHR ''_'' \<in> set (api_name (component_api j))
          \<longrightarrow> api_name (component_api j) = group H @ ''_'' @ api_name (api H)"
    by auto
  have "api_name (component_api j) = ''Actor_Get_Pos''"
    using j(1) unfolding json_parseAPILine_def Let_def c
    by (auto split: list.splits)
  then have 2: "CHR ''_'' \<in> set (api_name (component_api j))"
    by simp
  have nm: "api_name (component_api j) = group H @ ''_'' @ api_name (api H)"
    using j(3) 2 by (rule mp)
  have hn: "map param_name (api_params (api H)) = [''actor'', ''out'']"
    by (simp add: H_def)
  have 1: "map param_name (api_params (component_api j)) = [''actor'', ''out'']"
    using j(2) hn by simp
  have 3: "group H = ''Actor''" "api_name (api H) = ''Get_Pos''"
    by (simp_all add: H_def)
  from p j(1) hn 1 2 nm 3 show ?thesis
    by - (rule exI[of _ H], rule exI[of _ j], intro conjI, assumption+)
qed

section \<open>The grouped model\<close>

lemma records_of_push_api:
  assumes "push_api obj r = Inr obj'"
  shows "records_of obj' g = (if g = group r then records_of obj g @ [api r] else records_of obj g)"
proof (cases "map_of obj (group r)")
  case None
  with assms have np: "group r \<notin> set Object_prototype_names"
    by (auto simp: push_api_def Let_def split: if_splits)
  with None assms
  have "obj' = AList.update (group r) ([] @ [api r]) (AList.update (group r) [] obj)"
    by (simp add: push_api_def Let_def update_conv')
  then show ?thesis using None by (simp add: records_of_def update_conv')
next
  case (Some fs)
  with assms have "obj' = AList.update (group r) (fs @ [api r]) obj"
    by (simp add: push_api_def Let_def)
  then show ?thesis using Some by (simp add: records_of_def update_conv')
qed

lemma records_of_push_apis:
  "push_apis rs obj = Inr obj' \<Longrightarrow>
   records_of obj' g = records_of obj g @ map api (filter (\<lambda>r. group r = g) rs)"
proof (induction rs arbitrary: obj)
  case Nil
  then show ?case by simp
next
  case (Cons r rs)
  then obtain obj1 where 1: "push_api obj r = Inr obj1" and 2: "push_apis rs obj1 = Inr obj'"
    by (auto split: sum.splits)
  show ?case
    using Cons.IH[OF 2] records_of_push_api[OF 1, of g] by auto
qed

lemma processFile_loop_Inr:
  "processFile_loop lines acc = Inr rs \<Longrightarrow>
   \<exists>new. rs = acc @ new
       \<and> map parseAPILine (filter (\<lambda>line. js_startsWith line API_PREFIX) lines) = map Inr new"
proof (induction lines arbitrary: acc)
  case Nil
  then show ?case by simp
next
  case (Cons l lines)
  show ?case
  proof (cases "js_startsWith l API_PREFIX")
    case False
    with Cons show ?thesis by simp
  next
    case True
    with Cons.prems obtain r where r: "parseAPILine l = Inr r"
      and rest: "processFile_loop lines (acc @ [r]) = Inr rs"
      by (auto split: sum.splits)
    from Cons.IH[OF rest] obtain new where
      "rs = (acc @ [r]) @ new"
      "map parseAPILine (filter (\<lambda>line. js_startsWith line API_PREFIX) lines) = map Inr new"
      by blast
    then show ?thesis using True r by (intro exI[of _ "r # new"]) simp
  qed
qed

lemma collectAPIs_loop_Inr:
  "collectAPIs_loop files obj = Inr obj' \<Longrightarrow>
   \<exists>rs. map parseAPILine
          (concat (map (\<lambda>file. filter (\<lambda>line. js_startsWith line API_PREFIX) (snd file)) files))
        = map Inr rs
      \<and> (\<forall>g. records_of obj' g = records_of obj g @ map api (filter (\<lambda>r. group r = g) rs))"
proof (induction files arbitrary: obj)
  case Nil
  then show ?case by simp
next
  case (Cons f files)
  then obtain apis obj1 where a: "processFile (snd f) = Inr apis"
    and p: "push_apis apis obj = Inr obj1"
    and l: "collectAPIs_loop files obj1 = Inr obj'"
    by (auto split: sum.splits)
  from processFile_loop_Inr[OF a[unfolded processFile_def]]
  have 1: "map parseAPILine (filter (\<lambda>line. js_startsWith line API_PREFIX) (snd f)) = map Inr apis"
    by simp
  from Cons.IH[OF l] obtain rs where
    2: "map parseAPILine
          (concat (map (\<lambda>file. filter (\<lambda>line. js_startsWith line API_PREFIX) (snd file)) files))
        = map Inr rs"
    and 3: "\<forall>g. records_of obj' g = records_of obj1 g @ map api (filter (\<lambda>r. group r = g) rs)"
    by blast
  have "\<forall>g. records_of obj' g = records_of obj g @ map api (filter (\<lambda>r. group r = g) (apis @ rs))"
    using 3 records_of_push_apis[OF p] by simp
  with 1 2 show ?case by (intro exI[of _ "apis @ rs"]) simp
qed

lemma duplicate_lines_parsed:
  "parseAPILine ''OMP_CAPI(Actor_Create, int(int a))''
   = Inr \<lparr>group = ''Actor'',
          api = \<lparr>api_ret = JString ''int'', api_name = ''Create'',
                 api_params = [\<lparr>param_name = ''a'', param_type = JString ''int''\<rparr>]\<rparr>\<rparr>"
  "parseAPILine ''OMP_CAPI(Actor_Create, bool(float b))''
   = Inr \<lparr>group = ''Actor'',
          api = \<lparr>api_ret = JString ''bool'', api_name = ''Create'',
                 api_params = [\<lparr>param_name = ''b'', param_type = JString ''float''\<rparr>]\<rparr>\<rparr>"
proof -
  have h: "plain ''Actor''" "CHR ''_'' \<notin> set ''Actor''" "plain ''Create''"
    "plain ''int''" "plain ''bool''"
    by (simp_all add: plain_def)
  have w1: "\<forall>p\<in>set [(''int'', ''a'')]. is_word (fst p) \<and> is_word (snd p)"
    and w2: "\<forall>p\<in>set [(''float'', ''b'')]. is_word (fst p) \<and> is_word (snd p)"
    by (simp_all add: is_word_def plain_def js_isWhiteSpace_def)
  show "parseAPILine ''OMP_CAPI(Actor_Create, int(int a))''
   = Inr \<lparr>group = ''Actor'',
          api = \<lparr>api_ret = JString ''int'', api_name = ''Create'',
                 api_params = [\<lparr>param_name = ''a'', param_type = JString ''int''\<rparr>]\<rparr>\<rparr>"
    using parseAPILine_words_line[OF h(1,2,3,4) w1]
    by (simp add: annotation_line_def API_PREFIX_def param_text_def convertFunctionArgType_basic)
  show "parseAPILine ''OMP_CAPI(Actor_Create, bool(float b))''
   = Inr \<lparr>group = ''Actor'',
          api = \<lparr>api_ret = JString ''bool'', api_name = ''Create'',
                 api_params = [\<lparr>param_name = ''b'', param_type = JString ''float''\<rparr>]\<rparr>\<rparr>"
    using parseAPILine_words_line[OF h(1,2,3,5) w2]
    by (simp add: annotation_line_def API_PREFIX_def param_text_def convertFunctionArgType_basic)
qed

lemma collectAPIs_duplicate_dir:
  "collectAPIs duplicate_dir
   = Inr [(''Actor'',
           [\<lparr>api_ret = JString ''int'', api_name = ''Create'',
              api_params = [\<lparr>param_name = ''a'', param_type = JString ''int''\<rparr>]\<rparr>,
            \<lparr>api_ret = JString ''bool'', api_name = ''Create'',
              api_params = [\<lparr>param_name = ''b'', param_type = JString ''float''\<rparr>]\<rparr>])]"
proof -
  have f: "filter (\<lambda>file. js_endsWith (fst file) ''APIs.cpp'') duplicate_dir
           = [(''Actor/APIs.cpp'', [''#include <x>'', ''OMP_CAPI(Actor_Create, int(int a))'']),
              (''Player/APIs.cpp'', [''OMP_CAPI(Actor_Create, bool(float b))''])]"
    by (simp add: duplicate_dir_def js_endsWith_def)
  have s: "\<not> js_startsWith ''#include <x>'' API_PREFIX"
    "js_startsWith ''OMP_CAPI(Actor_Create, int(int a))'' API_PREFIX"
    "js_startsWith ''OMP_CAPI(Actor_Create, bool(float b))'' API_PREFIX"
    by (simp_all add: API_PREFIX_def)
  have n: "''Actor'' \<notin> set Object_prototype_names"
    by (simp add: Object_prototype_names_def)
  show ?thesis
    unfolding collectAPIs_def f
    by (simp add: processFile_def s duplicate_lines_parsed push_api_def n)
qed

text \<open>
  Claim C1, as stated, fails: \<^verbatim>\<open>collectAPIs\<close> pushes every record to the array of its
  group and replaces none.  With two files that both annotate \<^verbatim>\<open>Actor_Create\<close>, the
  group \<^verbatim>\<open>Actor\<close> holds two records named \<^verbatim>\<open>Create\<close>, the earlier one first, and
  not the later one alone.
\<close>

theorem collectAPIs_duplicate_counterexample:
  "collectAPIs duplicate_dir
   = Inr [(''Actor'',
           [\<lparr>api_ret = JString ''int'', api_name = ''Create'',
              api_params = [\<lparr>param_name = ''a'', param_type = JString ''int''\<rparr>]\<rparr>,
            \<lparr>api_ret = JString ''bool'', api_name = ''Create'',
              api_params = [\<lparr>param_name = ''b'', param_type = JString ''float''\<rparr>]\<rparr>])]
   \<and> records_of
         [(''Actor'',
           [\<lparr>api_ret = JString ''int'', api_name = ''Create'',
              api_params = [\<lparr>param_name = ''a'', param_type = JString ''int''\<rparr>]\<rparr>,
            \<lparr>api_ret = JString ''bool'', api_name = ''Create'',
              api_params = [\<lparr>param_name = ''b'', param_type = JString ''float''\<rparr>]\<rparr>])]
         ''Actor''
       \<noteq> [\<lparr>api_ret = JString ''bool'', api_name = ''Create'',
              api_params = [\<lparr>param_name = ''b'', param_type = JString ''float''\<rparr>]\<rparr>]"
  by (simp add: collectAPIs_duplicate_dir records_of_def)

text \<open>
  Claim C1, amended.  For every generation run whose collection completes, every annotation
  line handed to the parser has a record, and the grouped model lists under each group the
  records of all lines of that group, in processing order (files in the order of the listing,
  lines in the order of the file): an insertion appends to the list of its group and replaces
  nothing, so two lines with the same group and name both keep their records, the earlier
  before the later.
\<close>

theorem collectAPIs_keeps_every_record:
  assumes "collectAPIs dir = Inr apis"
  shows "\<exists>rs. map parseAPILine (annotation_lines dir) = map Inr rs
           \<and> (\<forall>g. records_of apis g = map api (filter (\<lambda>r. group r = g) rs))"
  using collectAPIs_loop_Inr[OF assms[unfolded collectAPIs_def]]
  by (simp add: annotation_lines_def records_of_def)

theorem collectAPIs_keeps_every_record_witness:
  "\<exists>apis rs. collectAPIs duplicate_dir = Inr apis
      \<and> map parseAPILine (annotation_lines duplicate_dir) = map Inr rs
      \<and> length rs = 2
      \<and> records_of apis ''Actor'' = map api (filter (\<lambda>r. group r = ''Actor'') rs)
      \<and> map api_name (records_of apis ''Actor'') = [''Create'', ''Create'']"
proof -
  let ?G = "[(''Actor'',
           [\<lparr>api_ret = JString ''int'', api_name = ''Create'',
              api_params = [\<lparr>param_name = ''a'', param_type = JString ''int''\<rparr>]\<rparr>,
            \<lparr>api_ret = JString ''bool'', api_name = ''Create'',
              api_params = [\<lparr>param_name = ''b'', param_type = JString ''float''\<rparr>]\<rparr>])]"
  have c: "collectAPIs duplicate_dir = Inr ?G" by (rule collectAPIs_duplicate_dir)
  from collectAPIs_keeps_every_record[OF c] obtain rs where
    rs: "map parseAPILine (annotation_lines duplicate_dir) = map Inr rs"
      "\<forall>g. records_of ?G g = map api (filter (\<lambda>r. group r = g) rs)"
    by blast
  have "length (annotation_lines duplicate_dir) = 2"
    by (simp add: annotation_lines_def duplicate_dir_def js_endsWith_def API_PREFIX_def)
  then have l: "length rs = 2"
    using arg_cong[OF rs(1), of length] by simp
  have a: "records_of ?G ''Actor'' = map api (filter (\<lambda>r. group r = ''Actor'') rs)"
    using rs(2) by (rule spec)
  have n: "map api_name (records_of ?G ''Actor'') = [''Create'', ''Create'']"
    by (simp add: records_of_def)
  from c rs(1) l a n show ?thesis
    by - (rule exI[of _ ?G], rule exI[of _ rs], intro conjI, assumption+)
qed

section \<open>The emitted text\<close>

lemma fold_append: "fold (\<lambda>x out. out @ f x) xs out = out @ concat (map f xs)"
  by (induction xs arbitrary: out) simp_all

lemma fold_group_appendFileSync:
  "fold (\<lambda>(g, xs) out. fold (\<lambda>x out. appendFileSync out (f g x)) xs (appendFileSync out (h g)))
     es out
   = out @ concat (map (\<lambda>(g, xs). h g @ concat (map (f g) xs)) es)"
  by (induction es arbitrary: out)
     (auto simp: fold_append appendFileSync_def)

lemma Object_entries_single: "Object_entries [e] = [e]"
  by (simp add: Object_entries_def)

lemma Object_entries_no_array_index:
  "\<forall>e\<in>set obj. \<not> is_array_index (fst e) \<Longrightarrow> Object_entries obj = obj"
  by (simp add: Object_entries_def filter_empty_conv)

lemma not_array_index_no_digit:
  "k = [] \<or> hd k \<notin> set ''0123456789'' \<Longrightarrow> \<not> is_array_index k"
  by (cases k) (auto simp: is_array_index_def)

lemma Object_entries_index_groups:
  "Object_entries [(''9'', x), (''1'', y)] = [(''1'', y), (''9'', x)]"
  by (simp add: Object_entries_def is_array_index_def digits_value_def)

text \<open>The appended text, over the enumeration of the model.\<close>

lemma writeInitializationFunction_entries:
  \<open>writeInitializationFunction apis out =
     out
     @ js_lines initializer_open_library
     @ js_lines initializer_sentinel
     @ concat
         (map (\<lambda>(grp, functions).
                 js_lines ['''', ''    // Retrieve '' @ grp @ '' functions'']
                 @ concat
                     (map (\<lambda>func.
                             js_lines
                               [''    ompapi->'' @ grp @ ''.'' @ api_name func
                                @ '' = ('' @ grp @ ''_'' @ api_name func
                                @ ''_t)LIBRARY_GET_ADDR(capi_lib, "'' @ grp @ ''_''
                                @ api_name func @ ''");''])
                        functions))
            (Object_entries apis))
     @ js_lines ['''', ''    return true;'', ''};'']\<close>
proof -
  have a: \<open>\<And>grp func. initializer_assignment grp func
             = js_lines [''    ompapi->'' @ grp @ ''.'' @ api_name func
                         @ '' = ('' @ grp @ ''_'' @ api_name func
                         @ ''_t)LIBRARY_GET_ADDR(capi_lib, "'' @ grp @ ''_''
                         @ api_name func @ ''");'']\<close>
    by (simp add: initializer_assignment_def js_lines_def)
  have h: "\<And>grp. NL @ ''    // Retrieve '' @ grp @ '' functions'' @ NL
             = js_lines ['''', ''    // Retrieve '' @ grp @ '' functions'']"
    by (simp add: js_lines_def)
  have e: "NL @ ''    return true;'' @ NL @ ''};'' @ NL = js_lines ['''', ''    return true;'', ''};'']"
    by (simp add: js_lines_def)
  have s: "js_lines (initializer_open_library @ initializer_sentinel)
           = js_lines initializer_open_library @ js_lines initializer_sentinel"
    by (simp add: js_lines_def)
  show ?thesis
    unfolding writeInitializationFunction_def fold_group_appendFileSync a h e s
    unfolding appendFileSync_def
    by simp
qed

lemma index_lines_parsed:
  "parseAPILine ''OMP_CAPI(9_a, int())''
   = Inr \<lparr>group = ''9'',
          api = \<lparr>api_ret = JString ''int'', api_name = ''a'', api_params = []\<rparr>\<rparr>"
  "parseAPILine ''OMP_CAPI(1_b, int())''
   = Inr \<lparr>group = ''1'',
          api = \<lparr>api_ret = JString ''int'', api_name = ''b'', api_params = []\<rparr>\<rparr>"
proof -
  have h: "plain ''9''" "CHR ''_'' \<notin> set ''9''" "plain ''a''" "plain ''int''"
    "plain ''1''" "CHR ''_'' \<notin> set ''1''" "plain ''b''"
    by (simp_all add: plain_def)
  have w: "\<forall>p\<in>set ([] :: (string \<times> string) list). is_word (fst p) \<and> is_word (snd p)"
    by simp
  show "parseAPILine ''OMP_CAPI(9_a, int())''
   = Inr \<lparr>group = ''9'',
          api = \<lparr>api_ret = JString ''int'', api_name = ''a'', api_params = []\<rparr>\<rparr>"
    using parseAPILine_words_line[OF h(1,2,3,4) w]
    by (simp add: annotation_line_def API_PREFIX_def convertFunctionArgType_basic)
  show "parseAPILine ''OMP_CAPI(1_b, int())''
   = Inr \<lparr>group = ''1'',
          api = \<lparr>api_ret = JString ''int'', api_name = ''b'', api_params = []\<rparr>\<rparr>"
    using parseAPILine_words_line[OF h(5,6,7,4) w]
    by (simp add: annotation_line_def API_PREFIX_def convertFunctionArgType_basic)
qed

lemma collectAPIs_index_dir:
  "collectAPIs index_dir
   = Inr [(''9'', [\<lparr>api_ret = JString ''int'', api_name = ''a'', api_params = []\<rparr>]),
          (''1'', [\<lparr>api_ret = JString ''int'', api_name = ''b'', api_params = []\<rparr>])]"
proof -
  have f: "filter (\<lambda>file. js_endsWith (fst file) ''APIs.cpp'') index_dir = index_dir"
    by (simp add: index_dir_def js_endsWith_def)
  have s: "js_startsWith ''OMP_CAPI(9_a, int())'' API_PREFIX"
    "js_startsWith ''OMP_CAPI(1_b, int())'' API_PREFIX"
    by (simp_all add: API_PREFIX_def)
  have n: "''9'' \<notin> set Object_prototype_names" "''1'' \<notin> set Object_prototype_names"
    by (simp_all add: Object_prototype_names_def)
  show ?thesis
    unfolding collectAPIs_def f
    by (simp add: index_dir_def processFile_def s index_lines_parsed push_api_def n)
qed

text \<open>
  Claim C3, as stated, fails in the order of the groups: \<^verbatim>\<open>Object.entries\<close> lists the
  groups whose name is an array index first, by number.  The lines \<^verbatim>\<open>9_a\<close> and
  \<^verbatim>\<open>1_b\<close>, in this order, give the grouped model with the group \<^verbatim>\<open>9\<close> before the
  group \<^verbatim>\<open>1\<close>, and the emitted text resolves the group \<^verbatim>\<open>1\<close> before the group
  \<^verbatim>\<open>9\<close>.
\<close>

theorem writeInitializationFunction_order_counterexample:
  \<open>collectAPIs index_dir
     = Inr [(''9'', [\<lparr>api_ret = JString ''int'', api_name = ''a'', api_params = []\<rparr>]),
            (''1'', [\<lparr>api_ret = JString ''int'', api_name = ''b'', api_params = []\<rparr>])]
   \<and> writeInitializationFunction
       [(''9'', [\<lparr>api_ret = JString ''int'', api_name = ''a'', api_params = []\<rparr>]),
        (''1'', [\<lparr>api_ret = JString ''int'', api_name = ''b'', api_params = []\<rparr>])] []
     = js_lines
         (initializer_open_library @ initializer_sentinel
          @ ['''',
             ''    // Retrieve 1 functions'',
             ''    ompapi->1.b = (1_b_t)LIBRARY_GET_ADDR(capi_lib, "1_b");'',
             '''',
             ''    // Retrieve 9 functions'',
             ''    ompapi->9.a = (9_a_t)LIBRARY_GET_ADDR(capi_lib, "9_a");'',
             '''',
             ''    return true;'',
             ''};''])\<close>
proof -
  have \<open>writeInitializationFunction
       [(''9'', [\<lparr>api_ret = JString ''int'', api_name = ''a'', api_params = []\<rparr>]),
        (''1'', [\<lparr>api_ret = JString ''int'', api_name = ''b'', api_params = []\<rparr>])] []
     = js_lines
         (initializer_open_library @ initializer_sentinel
          @ ['''',
             ''    // Retrieve 1 functions'',
             ''    ompapi->1.b = (1_b_t)LIBRARY_GET_ADDR(capi_lib, "1_b");'',
             '''',
             ''    // Retrieve 9 functions'',
             ''    ompapi->9.a = (9_a_t)LIBRARY_GET_ADDR(capi_lib, "9_a");'',
             '''',
             ''    return true;'',
             ''};''])\<close>
    unfolding writeInitializationFunction_entries Object_entries_index_groups
    by (simp add: js_lines_def)
  with collectAPIs_index_dir show ?thesis by (rule conjI)
qed

text \<open>
  Claim C3, amended.  For every grouped model and whatever the output holds before, the text
  that \<^verbatim>\<open>writeInitializationFunction\<close> appends is, in this order: the opening of the
  function, which opens the dynamic library of the platform at its fixed relative path and
  returns false when the open fails; the lookup of the sentinel \<^verbatim>\<open>Core_TickCount\<close>,
  before every other lookup, with a return of false when it is null; for every group and every
  record of the group, one assignment of the lookup of the string \<^verbatim>\<open>group_name\<close> to the
  field \<^verbatim>\<open>group.name\<close>, with no check after it; and the return of true.  The groups
  whose name is an array index (a canonical decimal numeral below \<open>2^32 - 1\<close>) come first, in
  ascending numeric order, then all other groups in grouped order; the records of a group are
  in grouped order.  Whenever no group name begins with a digit, this is the grouped order of
  the model itself.
\<close>

theorem writeInitializationFunction_text:
  \<open>let enumerated =
         sort_key (\<lambda>e. digits_value (fst e)) (filter (\<lambda>e. is_array_index (fst e)) apis)
         @ filter (\<lambda>e. \<not> is_array_index (fst e)) apis
   in writeInitializationFunction apis out =
        out
        @ js_lines
            ['''',
             ''static bool omp_initialize_capi(struct OMPAPI_t* ompapi) {'',
             ''#if defined(WIN32) || defined(_WIN32) || defined(__WIN32__)'',
             ''    void* capi_lib = LIBRARY_OPEN("./components/$CAPI.dll");'',
             ''#else'',
             ''    void* capi_lib = LIBRARY_OPEN("./components/$CAPI.so");'',
             ''#endif'',
             '''',
             ''    // Check if library was loaded successfully'',
             ''    if (!capi_lib)'',
             ''    {'',
             ''        return false;'',
             ''    }'',
             '''']
        @ js_lines
            [''    // Verify one of the core C apis is available'',
             ''    ompapi->Core.TickCount = (Core_TickCount_t)LIBRARY_GET_ADDR(capi_lib, "Core_TickCount");'',
             '''',
             ''    if (!ompapi->Core.TickCount)'',
             ''    {'',
             ''        return false;'',
             ''    }'']
        @ concat
            (map (\<lambda>(grp, functions).
                    js_lines ['''', ''    // Retrieve '' @ grp @ '' functions'']
                    @ concat
                        (map (\<lambda>func.
                                js_lines
                                  [''    ompapi->'' @ grp @ ''.'' @ api_name func
                                   @ '' = ('' @ grp @ ''_'' @ api_name func
                                   @ ''_t)LIBRARY_GET_ADDR(capi_lib, "'' @ grp @ ''_''
                                   @ api_name func @ ''");''])
                           functions))
               enumerated)
        @ js_lines ['''', ''    return true;'', ''};'']
      \<and> ((\<forall>e\<in>set apis. fst e = [] \<or> hd (fst e) \<notin> set ''0123456789'')
           \<longrightarrow> enumerated = apis)\<close>
proof -
  have 1: "(\<forall>e\<in>set apis. fst e = [] \<or> hd (fst e) \<notin> set ''0123456789'')
           \<longrightarrow> Object_entries apis = apis"
    by (auto intro!: Object_entries_no_array_index not_array_index_no_digit)
  show ?thesis
    unfolding Let_def Object_entries_def[symmetric]
    using 1 writeInitializationFunction_entries[of apis out]
    by (simp add: initializer_open_library_def initializer_sentinel_def)
qed

theorem writeInitializationFunction_text_witness:
  \<open>hd ''Core'' \<notin> set ''0123456789'' \<and> hd ''Actor'' \<notin> set ''0123456789''
   \<and> writeInitializationFunction
       [(''Core'', [\<lparr>api_ret = JString ''uint32_t'', api_name = ''TickCount'',
                     api_params = []\<rparr>]),
        (''Actor'', [\<lparr>api_ret = JString ''bool'', api_name = ''Destroy'', api_params = []\<rparr>,
                     \<lparr>api_ret = JString ''bool'', api_name = ''IsValid'', api_params = []\<rparr>])]
       ''// ''
     = ''// ''
       @ js_lines
         (initializer_open_library @ initializer_sentinel
          @ ['''',
             ''    // Retrieve Core functions'',
             ''    ompapi->Core.TickCount = (Core_TickCount_t)LIBRARY_GET_ADDR(capi_lib, "Core_TickCount");'',
             '''',
             ''    // Retrieve Actor functions'',
             ''    ompapi->Actor.Destroy = (Actor_Destroy_t)LIBRARY_GET_ADDR(capi_lib, "Actor_Destroy");'',
             ''    ompapi->Actor.IsValid = (Actor_IsValid_t)LIBRARY_GET_ADDR(capi_lib, "Actor_IsValid");'',
             '''',
             ''    return true;'',
             ''};''])\<close>
proof -
  let ?A = "[(''Core'', [\<lparr>api_ret = JString ''uint32_t'', api_name = ''TickCount'',
                     api_params = []\<rparr>]),
        (''Actor'', [\<lparr>api_ret = JString ''bool'', api_name = ''Destroy'', api_params = []\<rparr>,
                     \<lparr>api_ret = JString ''bool'', api_name = ''IsValid'', api_params = []\<rparr>])]"
  have d: "hd ''Core'' \<notin> set ''0123456789''" "hd ''Actor'' \<notin> set ''0123456789''"
    by simp_all
  then have h: "\<forall>e\<in>set ?A. fst e = [] \<or> hd (fst e) \<notin> set ''0123456789''"
    by simp
  note t = writeInitializationFunction_text[of ?A "''// ''", unfolded Let_def]
  have e: "sort_key (\<lambda>e. digits_value (fst e)) (filter (\<lambda>e. is_array_index (fst e)) ?A)
           @ filter (\<lambda>e. \<not> is_array_index (fst e)) ?A = ?A"
    using conjunct2[OF t] h by (rule mp)
  have \<open>writeInitializationFunction ?A ''// '' = ''// ''
       @ js_lines
         (initializer_open_library @ initializer_sentinel
          @ ['''',
             ''    // Retrieve Core functions'',
             ''    ompapi->Core.TickCount = (Core_TickCount_t)LIBRARY_GET_ADDR(capi_lib, "Core_TickCount");'',
             '''',
             ''    // Retrieve Actor functions'',
             ''    ompapi->Actor.Destroy = (Actor_Destroy_t)LIBRARY_GET_ADDR(capi_lib, "Actor_Destroy");'',
             ''    ompapi->Actor.IsValid = (Actor_IsValid_t)LIBRARY_GET_ADDR(capi_lib, "Actor_IsValid");'',
             '''',
             ''    return true;'',
             ''};''])\<close>
    using conjunct1[OF t, unfolded e]
    by (simp add: js_lines_def initializer_open_library_def initializer_sentinel_def)
  with d show ?thesis by simp
qed

lemma convertEventArgType_basic:
  "convertEventArgType (JString ''int'') = JString ''int''"
  "convertEventArgType (JString ''CAPIStringView'') = JString ''struct CAPIStringView''"
  by (simp_all add: convertEventArgType_def js_get_or_def js_get_def
        TYPE_MAPPINGS_event_def Object_prototype_names_def)

lemma OnPlayerConnect_arg_lines:
  "event_arg_lines OnPlayerConnect
   = [''        int* playerid;'', ''        struct CAPIStringView* ip;'']"
  by (simp add: event_arg_lines_def OnPlayerConnect_def convertEventArgType_basic)

lemma writeEventDefinitions_Player_OnPlayerConnect:
  "writeEventDefinitions [(''Player'', [OnPlayerConnect])] []
   = js_lines
       ['''',
        '''',
        ''// Player event type and arguments definitions'',
        ''struct EventArgs_OnPlayerConnect {'',
        ''    int size;'',
        ''    struct {'',
        ''        int* playerid;'',
        ''        struct CAPIStringView* ip;'',
        ''    } *list;'',
        ''};'',
        ''typedef bool (*EventCallback_OnPlayerConnect)(struct EventArgs_OnPlayerConnect args);'',
        '''']"
  unfolding writeEventDefinitions_def Object_entries_single
  by (simp add: appendFileSync_def event_definition_def event_arg_lines_def js_lines_def
        OnPlayerConnect_def convertEventArgType_basic)

text \<open>
  Claim C6, as stated, fails: the field \<^verbatim>\<open>ip\<close> is declared as a pointer,
  \<^verbatim>\<open>struct CAPIStringView* ip;\<close>, and a declaration \<^verbatim>\<open>struct CAPIStringView ip;\<close>
  of the record type itself occurs nowhere in the emitted text.
\<close>

theorem OnPlayerConnect_ip_field_counterexample:
  "event_arg_lines OnPlayerConnect ! 1 = ''        struct CAPIStringView* ip;''
   \<and> event_arg_lines OnPlayerConnect ! 1 \<noteq> ''        struct CAPIStringView ip;''
   \<and> js_indexOf (writeEventDefinitions [(''Player'', [OnPlayerConnect])] [])
         ''struct CAPIStringView ip;'' 0 = - 1"
proof -
  have "js_indexOf (writeEventDefinitions [(''Player'', [OnPlayerConnect])] [])
         ''struct CAPIStringView ip;'' 0 = - 1"
    unfolding writeEventDefinitions_Player_OnPlayerConnect
    by (simp add: js_indexOf_def js_lines_def NL_def)
  then show ?thesis by (simp add: OnPlayerConnect_arg_lines)
qed

text \<open>
  Claim C6, amended.  For the schema entry \<^verbatim>\<open>OnPlayerConnect\<close> with the arguments
  \<^verbatim>\<open>playerid\<close> of type \<^verbatim>\<open>int\<close> and \<^verbatim>\<open>ip\<close> of type \<^verbatim>\<open>CAPIStringView\<close>,
  under any component and after any earlier output, the emitted argument record
  \<^verbatim>\<open>EventArgs_OnPlayerConnect\<close> holds a size and a pointer \<^verbatim>\<open>list\<close> to a nested record
  whose second field is named \<^verbatim>\<open>ip\<close> and is a pointer to the normalized string-view record
  type, \<^verbatim>\<open>struct CAPIStringView*\<close>; the matching callback alias
  \<^verbatim>\<open>EventCallback_OnPlayerConnect\<close>, which takes that argument record, follows it.
\<close>

theorem writeEventDefinitions_OnPlayerConnect:
  "writeEventDefinitions [(component_name, [OnPlayerConnect])] out =
     out
     @ js_lines
         ['''',
          '''',
          ''// '' @ component_name @ '' event type and arguments definitions'',
          ''struct EventArgs_OnPlayerConnect {'',
          ''    int size;'',
          ''    struct {'',
          ''        int* playerid;'',
          ''        struct CAPIStringView* ip;'',
          ''    } *list;'',
          ''};'',
          ''typedef bool (*EventCallback_OnPlayerConnect)(struct EventArgs_OnPlayerConnect args);'',
          '''']"
  unfolding writeEventDefinitions_def Object_entries_single
  by (simp add: appendFileSync_def event_definition_def event_arg_lines_def js_lines_def
        OnPlayerConnect_def convertEventArgType_basic)

end
